theory Spec2Isabelle
  imports Complex_Main "HOL-Library.Sublist"
begin

section \<open>Python values used by the converters\<close>

subsection \<open>Floats\<close>

text \<open>
  A Python float is an IEEE-754 binary64 number. It is represented here by the real number
  it denotes. Only finite values are represented: infinities, NaN and the sign of zero are
  outside this development. An arithmetic operation returns the exact result rounded to the
  nearest binary64 number, ties to even (\<open>round64\<close>). That is what IEEE-754 prescribes for
  sum, difference, product, quotient and square root; the powers and the functions of
  \<^verbatim>\<open>math\<close> are taken as correctly rounded too. A sum, difference, product or quotient
  beyond the largest float is an infinity in Python and raises nothing; here it is the
  rounded real number, so the model is exact as long as these results stay below \<open>2^1024\<close>.
  A power beyond the largest float raises \<^verbatim>\<open>OverflowError\<close> (\<open>fpow\<close> below).
\<close>

type_synonym pyfloat = real

definition rne :: "real \<Rightarrow> int" where
  "rne x = (let f = \<lfloor>x\<rfloor>; d = x - of_int f
            in if d < 1 / 2 then f else if 1 / 2 < d then f + 1
               else if even f then f else f + 1)"

definition round64 :: "real \<Rightarrow> pyfloat" where
  "round64 x = (if x = 0 then 0
     else (let e = max \<lfloor>log 2 \<bar>x\<bar>\<rfloor> (- 1022); q = 2 powr (of_int (e - 52))
           in q * of_int (rne (x / q))))"

definition fadd :: "pyfloat \<Rightarrow> pyfloat \<Rightarrow> pyfloat" where
  "fadd a b = round64 (a + b)"

definition fsub :: "pyfloat \<Rightarrow> pyfloat \<Rightarrow> pyfloat" where
  "fsub a b = round64 (a - b)"

definition fmul :: "pyfloat \<Rightarrow> pyfloat \<Rightarrow> pyfloat" where
  "fmul a b = round64 (a * b)"

definition fdiv :: "pyfloat \<Rightarrow> pyfloat \<Rightarrow> pyfloat" where
  "fdiv a b = round64 (a / b)"

text \<open>
  \<^verbatim>\<open>sum(...)\<close> over floats: a left fold from the integer 0, each partial sum rounded
  (CPython before 3.12; later versions compensate the rounding of the partial sums).
\<close>

definition py_sum :: "pyfloat list \<Rightarrow> pyfloat" where
  "py_sum xs = foldl fadd 0 xs"

subsection \<open>Text\<close>

definition digit_char :: "nat \<Rightarrow> char" where
  "digit_char d = ''0123456789'' ! d"

function str_nat :: "nat \<Rightarrow> string" where
  "str_nat n = (if n < 10 then [digit_char n] else str_nat (n div 10) @ [digit_char (n mod 10)])"
  by pat_completeness auto
termination
  by (relation "measure id") auto

declare str_nat.simps [simp del]

text \<open>The format specification \<^verbatim>\<open>.2f\<close>: two decimals, correctly rounded.\<close>

definition fmt2 :: "pyfloat \<Rightarrow> string" where
  "fmt2 x = (let n = nat (rne (\<bar>x\<bar> * 100))
             in (if x < 0 then ''-'' else '''') @ str_nat (n div 100) @ ''.''
                @ [digit_char (n mod 100 div 10), digit_char (n mod 10)])"

definition ljust :: "nat \<Rightarrow> string \<Rightarrow> string" where
  "ljust w s = s @ replicate (w - length s) CHR '' ''"

definition rjust :: "nat \<Rightarrow> string \<Rightarrow> string" where
  "rjust w s = replicate (w - length s) CHR '' '' @ s"

definition newline :: char where
  "newline = CHR 0x0A"

text \<open>
  The narrow no-break space U+202F, which stands before the unit in the three lines of
  totals of gpx2lv95: text is a list of bytes, here the three bytes of its UTF-8 form.
\<close>

definition nnbsp :: string where
  "nnbsp = [CHR 0xE2, CHR 0x80, CHR 0xAF]"

fun join_lines :: "string list \<Rightarrow> string" where
  "join_lines [] = []"
| "join_lines [l] = l"
| "join_lines (l # ls) = l @ [newline] @ join_lines ls"

text \<open>
  \<^verbatim>\<open>float(s)\<close> on text, for plain decimal literals: an optional sign, digits, and an
  optional fraction. Python accepts more forms (exponents, surrounding blanks, \<open>inf\<close>,
  \<open>nan\<close>); the parsers below take the conversion as a parameter \<open>pf\<close>, and this one is
  used where a concrete input is evaluated. \<open>None\<close> stands for \<^verbatim>\<open>ValueError\<close>.
\<close>

definition is_digit :: "char \<Rightarrow> bool" where
  "is_digit c = (c \<in> set ''0123456789'')"

definition digit_val :: "char \<Rightarrow> nat" where
  "digit_val c = of_char c - 48"

definition nat_of_digits :: "string \<Rightarrow> nat" where
  "nat_of_digits s = foldl (\<lambda>a c. 10 * a + digit_val c) 0 s"

definition unsigned_decimal :: "string \<Rightarrow> real option" where
  "unsigned_decimal s =
     (let ip = takeWhile is_digit s; r = dropWhile is_digit s
      in if ip = [] then None
         else if r = [] then Some (real (nat_of_digits ip))
         else if hd r = CHR ''.'' \<and> tl r \<noteq> [] \<and> list_all is_digit (tl r)
              then Some (real (nat_of_digits ip)
                         + real (nat_of_digits (tl r)) / 10 ^ length (tl r))
         else None)"

definition decimal_float :: "string \<Rightarrow> pyfloat option" where
  "decimal_float s =
     (case s of
        [] \<Rightarrow> None
      | c # cs \<Rightarrow>
          if c = CHR ''-'' then map_option (\<lambda>v. round64 (- v)) (unsigned_decimal cs)
          else map_option round64 (unsigned_decimal s))"

subsection \<open>Exceptions\<close>

text \<open>
  The exceptions that the two programs raise or catch. \<open>ValueError\<close> carries its
  message, \<open>KeyError\<close> the key, \<open>HTTPError\<close> the status; \<open>RequestError\<close> is any
  failure of the transport (time-out, refused connection). \<open>FileNotFoundError\<close> is kept
  apart from the other failures of the file system (\<open>OSError\<close>), since both programs
  catch it by name.
\<close>

datatype error =
    TypeError
  | ValueError string
  | KeyError string
  | IndexError
  | HTTPError nat
  | RequestError
  | JSONDecodeError
  | OverflowError
  | FileNotFoundError
  | OSError

text \<open>\<^verbatim>\<open>str(exc)\<close>; of a library's own wording only the kind is kept.\<close>

definition str_error :: "error \<Rightarrow> string" where
  "str_error x =
     (case x of
        TypeError \<Rightarrow> ''TypeError''
      | ValueError m \<Rightarrow> m
      | KeyError k \<Rightarrow> [CHR 0x27] @ k @ [CHR 0x27]
      | IndexError \<Rightarrow> ''list index out of range''
      | HTTPError st \<Rightarrow> ''HTTP Error '' @ str_nat st
      | RequestError \<Rightarrow> ''request failed''
      | JSONDecodeError \<Rightarrow> ''JSONDecodeError''
      | OverflowError \<Rightarrow> ''(34, '' @ [CHR 0x27] @ ''Numerical result out of range''
                          @ [CHR 0x27] @ '')''
      | FileNotFoundError \<Rightarrow> ''FileNotFoundError''
      | OSError \<Rightarrow> ''OSError'')"

text \<open>
  \<^verbatim>\<open>x ** k\<close> for a float \<open>x\<close> and \<open>k\<close> equal to 2 or 3: the correctly rounded power,
  and \<^verbatim>\<open>OverflowError\<close> when it lies beyond the largest float, that is, when rounding
  with an unbounded exponent reaches \<open>2^1024\<close>.
\<close>

definition fpow :: "pyfloat \<Rightarrow> nat \<Rightarrow> error + pyfloat" where
  "fpow a k = (let r = round64 (a ^ k)
               in if 2 ^ 1024 \<le> \<bar>r\<bar> then Inl OverflowError else Inr r)"

text \<open>
  Evaluation in sequence: \<open>and_then r f\<close> goes on with the value of \<open>r\<close>, unless \<open>r\<close> has
  raised. \<open>collect\<close> gives the values of a generator expression in order; the first element
  that raises ends it.
\<close>

definition and_then :: "error + 'a \<Rightarrow> ('a \<Rightarrow> error + 'b) \<Rightarrow> error + 'b" where
  "and_then r f = (case r of Inl x \<Rightarrow> Inl x | Inr v \<Rightarrow> f v)"

fun collect :: "(error + 'a) list \<Rightarrow> error + 'a list" where
  "collect [] = Inr []"
| "collect (r # rs) =
     (case r of
        Inl x \<Rightarrow> Inl x
      | Inr v \<Rightarrow> (case collect rs of Inl x \<Rightarrow> Inl x | Inr vs \<Rightarrow> Inr (v # vs)))"

subsection \<open>Files\<close>

text \<open>
  Writing a text to a path: the file system is a parameter \<open>fs\<close>, which gives for a path
  the exception that opening or writing it raises, or \<open>None\<close> when the whole text is
  written. Printing to the standard streams is taken to succeed.
\<close>

type_synonym file_system = "string \<Rightarrow> error option"

section \<open>The GPX document\<close>

text \<open>
  The tree that \<^verbatim>\<open>ET.parse(...).getroot()\<close> returns: a tag in Clark notation, the
  attributes, the text and the children in document order.
\<close>

datatype element = Element (tag: string) (attrib: "(string \<times> string) list")
  (elem_text: "string option") (children: "element list")

definition gpx_ns :: string where
  "gpx_ns = ''{http://www.topografix.com/GPX/1/1}''"

definition trkpt :: string where "trkpt = gpx_ns @ ''trkpt''"
definition rtept :: string where "rtept = gpx_ns @ ''rtept''"
definition wpt :: string where "wpt = gpx_ns @ ''wpt''"
definition ele_tag :: string where "ele_tag = gpx_ns @ ''ele''"

fun descendants :: "element \<Rightarrow> element list" where
  "descendants (Element t a x cs) = concat (map (\<lambda>c. c # descendants c) cs)"

text \<open>\<^verbatim>\<open>root.findall('.//gpx:T', ns)\<close> and \<^verbatim>\<open>elem.find('gpx:T', ns)\<close>.\<close>

definition findall :: "string \<Rightarrow> element \<Rightarrow> element list" where
  "findall t doc = filter (\<lambda>e. tag e = t) (descendants doc)"

definition find_child :: "string \<Rightarrow> element \<Rightarrow> element option" where
  "find_child t e = List.find (\<lambda>c. tag c = t) (children e)"

definition get :: "element \<Rightarrow> string \<Rightarrow> string option" where
  "get e k = map_of (attrib e) k"

type_synonym raw_point = "pyfloat \<times> pyfloat \<times> pyfloat option"

text \<open>\<^verbatim>\<open>float(x)\<close> where \<open>x\<close> may be \<^verbatim>\<open>None\<close>.\<close>

definition float_of :: "(string \<Rightarrow> pyfloat option) \<Rightarrow> string option \<Rightarrow> error + pyfloat" where
  "float_of pf x =
     (case x of
        None \<Rightarrow> Inl TypeError
      | Some s \<Rightarrow>
          (case pf s of
             None \<Rightarrow> Inl (ValueError (''could not convert string to float: ''
                                       @ [CHR 0x27] @ s @ [CHR 0x27]))
           | Some v \<Rightarrow> Inr v))"

text \<open>
  \<^verbatim>\<open>float(ele_el.text) if ele_el is not None and ele_el.text else None\<close>
\<close>

definition read_ele :: "(string \<Rightarrow> pyfloat option) \<Rightarrow> element \<Rightarrow> error + pyfloat option" where
  "read_ele pf e =
     (case find_child ele_tag e of
        None \<Rightarrow> Inr None
      | Some el \<Rightarrow>
          (case elem_text el of
             None \<Rightarrow> Inr None
           | Some s \<Rightarrow>
               if s = [] then Inr None
               else (case float_of pf (Some s) of Inl x \<Rightarrow> Inl x | Inr v \<Rightarrow> Inr (Some v))))"

section \<open>gpx2lv95: point extraction\<close>

definition extract_elem :: "(string \<Rightarrow> pyfloat option) \<Rightarrow> element \<Rightarrow> error + raw_point" where
  "extract_elem pf e =
     (case float_of pf (get e ''lat'') of
        Inl x \<Rightarrow> Inl x
      | Inr lat \<Rightarrow>
          (case float_of pf (get e ''lon'') of
             Inl x \<Rightarrow> Inl x
           | Inr lon \<Rightarrow>
               (case read_ele pf e of
                  Inl x \<Rightarrow> Inl x
                | Inr el \<Rightarrow> Inr (lat, lon, el))))"

text \<open>
  \<open>extract_elem\<close> is the inner function \<^verbatim>\<open>_extract\<close>; \<open>extract_each\<close> is the list
  comprehension over it, which the first element that raises ends.
\<close>

fun extract_each :: "(string \<Rightarrow> pyfloat option) \<Rightarrow> element list \<Rightarrow> error + raw_point list" where
  "extract_each pf [] = Inr []"
| "extract_each pf (e # es) =
     (case extract_elem pf e of
        Inl x \<Rightarrow> Inl x
      | Inr p \<Rightarrow> (case extract_each pf es of Inl x \<Rightarrow> Inl x | Inr ps \<Rightarrow> Inr (p # ps)))"

text \<open>\<^verbatim>\<open>a or b\<close> on lists.\<close>

definition py_or :: "'a list \<Rightarrow> 'a list \<Rightarrow> 'a list" where
  "py_or a b = (if a \<noteq> [] then a else b)"

definition parse_gpx :: "(string \<Rightarrow> pyfloat option) \<Rightarrow> element \<Rightarrow> error + raw_point list" where
  "parse_gpx pf doc =
     extract_each pf (py_or (findall trkpt doc) (py_or (findall rtept doc) (findall wpt doc)))"

section \<open>gpx2kroki: point extraction\<close>

text \<open>
  Each of the three \<^verbatim>\<open>for\<close> statements of \<^verbatim>\<open>parse_gpx\<close>: it appends to \<open>points\<close>,
  passes over an element without \<open>lat\<close> or \<open>lon\<close>, and a failing \<^verbatim>\<open>float\<close> ends the
  function.
\<close>

fun kroki_loop :: "(string \<Rightarrow> pyfloat option) \<Rightarrow> element list \<Rightarrow> raw_point list
    \<Rightarrow> error + raw_point list" where
  "kroki_loop pf [] points = Inr points"
| "kroki_loop pf (e # es) points =
     (let lat_str = get e ''lat''; lon_str = get e ''lon''
      in if lat_str = None \<or> lon_str = None then kroki_loop pf es points
         else (case float_of pf lat_str of
                 Inl x \<Rightarrow> Inl x
               | Inr lat \<Rightarrow>
                   (case float_of pf lon_str of
                      Inl x \<Rightarrow> Inl x
                    | Inr lon \<Rightarrow>
                        (case read_ele pf e of
                           Inl x \<Rightarrow> Inl x
                         | Inr el \<Rightarrow> kroki_loop pf es (points @ [(lat, lon, el)])))))"

definition kroki_parse_gpx :: "(string \<Rightarrow> pyfloat option) \<Rightarrow> element
    \<Rightarrow> error + raw_point list" where
  "kroki_parse_gpx pf doc =
     (case kroki_loop pf (findall trkpt doc) [] of
        Inl x \<Rightarrow> Inl x
      | Inr points1 \<Rightarrow>
          (case (if points1 = [] then kroki_loop pf (findall rtept doc) points1
                 else Inr points1) of
             Inl x \<Rightarrow> Inl x
           | Inr points2 \<Rightarrow>
               (if points2 = [] then kroki_loop pf (findall wpt doc) points2
                else Inr points2)))"

section \<open>The height service\<close>

text \<open>
  The body of a reply as \<^verbatim>\<open>json\<close> decodes it; an object is the list of its members.
  A reply has a status and a body, \<open>None\<close> when the body is not JSON. The service itself
  is a parameter \<open>http\<close>: for the coordinates of a query it gives the reply, or the
  exception of the transport.
\<close>

datatype json =
    JObject "(string \<times> json) list"
  | JArray "json list"
  | JString string
  | JNumber pyfloat
  | JBool bool
  | JNull

datatype http_reply = Reply (status: nat) (body: "json option")

type_synonym http_service = "pyfloat \<Rightarrow> pyfloat \<Rightarrow> error + http_reply"

text \<open>
  A request is known by the coordinates it asks for. \<open>send\<close> is the one place where the
  service is consulted: it gives the answer together with the record of the request, and
  every function below that may consult the service returns the requests it has sent.
  Both \<^verbatim>\<open>requests.get(...)\<close> of gpx2lv95 and \<^verbatim>\<open>urllib.request.urlopen(...)\<close> of
  gpx2kroki go through it.
\<close>

type_synonym request = "pyfloat \<times> pyfloat"

definition send :: "http_service \<Rightarrow> pyfloat \<Rightarrow> pyfloat \<Rightarrow> (error + http_reply) \<times> request list" where
  "send http e n = (http e n, [(e, n)])"

text \<open>\<^verbatim>\<open>data[key]\<close>, \<^verbatim>\<open>key in data\<close> and \<^verbatim>\<open>float(v)\<close> on decoded JSON.\<close>

definition subscript :: "json \<Rightarrow> string \<Rightarrow> error + json" where
  "subscript data k =
     (case data of
        JObject kvs \<Rightarrow> (case map_of kvs k of None \<Rightarrow> Inl (KeyError k) | Some v \<Rightarrow> Inr v)
      | _ \<Rightarrow> Inl TypeError)"

definition contains :: "json \<Rightarrow> string \<Rightarrow> error + bool" where
  "contains data k =
     (case data of
        JObject kvs \<Rightarrow> Inr (k \<in> fst ` set kvs)
      | JArray vs \<Rightarrow> Inr (JString k \<in> set vs)
      | JString s \<Rightarrow> Inr (sublist k s)
      | _ \<Rightarrow> Inl TypeError)"

definition float_json :: "(string \<Rightarrow> pyfloat option) \<Rightarrow> json \<Rightarrow> error + pyfloat" where
  "float_json pf v =
     (case v of
        JNumber x \<Rightarrow> Inr x
      | JString s \<Rightarrow> float_of pf (Some s)
      | JBool b \<Rightarrow> Inr (if b then 1 else 0)
      | _ \<Rightarrow> Inl TypeError)"

text \<open>
  \<^verbatim>\<open>resp.raise_for_status()\<close> of requests raises for a status from 400 to 599;
  \<^verbatim>\<open>urllib.request.urlopen\<close> raises for every status outside 200 to 299.
\<close>

definition raise_for_status :: "http_reply \<Rightarrow> error + unit" where
  "raise_for_status r =
     (if 400 \<le> status r \<and> status r < 600 then Inl (HTTPError (status r)) else Inr ())"

definition urlopen :: "http_service \<Rightarrow> pyfloat \<Rightarrow> pyfloat
    \<Rightarrow> (error + http_reply) \<times> request list" where
  "urlopen http e n =
     (case send http e n of
        (answer, sent) \<Rightarrow>
          ((case answer of
              Inl x \<Rightarrow> Inl x
            | Inr r \<Rightarrow> if 200 \<le> status r \<and> status r < 300 then Inr r
                       else Inl (HTTPError (status r))),
           sent))"

definition json_of :: "http_reply \<Rightarrow> error + json" where
  "json_of r = (case body r of None \<Rightarrow> Inl JSONDecodeError | Some d \<Rightarrow> Inr d)"

section \<open>gpx2lv95: elevation, profile and report\<close>

datatype log_record = Info string | Warning string | Error string

text \<open>
  The body of the \<^verbatim>\<open>try\<close> in \<^verbatim>\<open>fetch_elevation\<close>: the height or the exception
  raised, and the request sent.
\<close>

definition request_height :: "(string \<Rightarrow> pyfloat option) \<Rightarrow> http_service \<Rightarrow> pyfloat \<Rightarrow> pyfloat
    \<Rightarrow> (error + pyfloat) \<times> request list" where
  "request_height pf http e n =
     (case send http e n of
        (answer, sent) \<Rightarrow>
          ((case answer of
              Inl x \<Rightarrow> Inl x
            | Inr resp \<Rightarrow>
                (case raise_for_status resp of
                   Inl x \<Rightarrow> Inl x
                 | Inr _ \<Rightarrow>
                     (case json_of resp of
                        Inl x \<Rightarrow> Inl x
                      | Inr data \<Rightarrow>
                          (case subscript data ''height'' of
                             Inl x \<Rightarrow> Inl x
                           | Inr v \<Rightarrow> float_json pf v)))),
           sent))"

text \<open>
  The result is the elevation, the records written to the log and the requests sent to
  the service.
\<close>

definition fetch_elevation :: "(string \<Rightarrow> pyfloat option) \<Rightarrow> http_service \<Rightarrow> pyfloat option
    \<Rightarrow> pyfloat \<Rightarrow> pyfloat \<Rightarrow> bool \<Rightarrow> pyfloat \<times> log_record list \<times> request list" where
  "fetch_elevation pf http ele e n use_height_api =
     (case ele of
        Some v \<Rightarrow> (v, [], [])
      | None \<Rightarrow>
          if \<not> use_height_api then (0, [], [])
          else (case request_height pf http e n of
                  (Inr h, sent) \<Rightarrow> (h, [], sent)
                | (Inl exc, sent) \<Rightarrow>
                    (0, [Warning (''Could not fetch elevation for E='' @ fmt2 e @ '', N=''
                                  @ fmt2 n @ '': '' @ str_error exc)], sent)))"

text \<open>
  An entry of the profile, the dictionary with the keys \<open>e\<close>, \<open>n\<close>, \<open>ele\<close>, \<open>dist\<close>,
  \<open>azimuth\<close> and \<open>delta_ele\<close>. \<^verbatim>\<open>format_profile\<close> tests \<open>ele\<close> against \<^verbatim>\<open>None\<close>, so
  the field is optional.
\<close>

record entry =
  p_e :: pyfloat
  p_n :: pyfloat
  p_ele :: "pyfloat option"
  p_dist :: pyfloat
  p_azimuth :: pyfloat
  p_delta_ele :: pyfloat

text \<open>
  The projection \<^verbatim>\<open>LV95_TRANSFORMER.transform(lon, lat)\<close> and the geodesic inverse
  \<^verbatim>\<open>GEOD.inv(lon1, lat1, lon2, lat2)\<close>, which gives the forward azimuth, the back azimuth
  and the distance, belong to pyproj and are parameters.
\<close>

type_synonym transformer = "pyfloat \<Rightarrow> pyfloat \<Rightarrow> pyfloat \<times> pyfloat"
type_synonym geod = "pyfloat \<Rightarrow> pyfloat \<Rightarrow> pyfloat \<Rightarrow> pyfloat \<Rightarrow> pyfloat \<times> pyfloat \<times> pyfloat"

text \<open>\<^verbatim>\<open>xs[i]\<close> for \<open>i\<close> from 0, and \<^verbatim>\<open>xs[-1]\<close>.\<close>

definition item :: "'a list \<Rightarrow> nat \<Rightarrow> error + 'a" where
  "item xs i = (if i < length xs then Inr (xs ! i) else Inl IndexError)"

definition last_item :: "'a list \<Rightarrow> error + 'a" where
  "last_item xs = (if xs = [] then Inl IndexError else Inr (last xs))"

text \<open>\<^verbatim>\<open>x - y\<close> where \<open>y\<close> may be \<^verbatim>\<open>None\<close>.\<close>

definition fsub_opt :: "pyfloat \<Rightarrow> pyfloat option \<Rightarrow> error + pyfloat" where
  "fsub_opt x y = (case y of None \<Rightarrow> Inl TypeError | Some v \<Rightarrow> Inr (fsub x v))"

text \<open>
  The part of the loop body under \<^verbatim>\<open>if idx > 0\<close>: the new values of \<open>dist\<close>, \<open>azim\<close>
  and \<open>d_ele\<close>.
\<close>

definition from_prev :: "geod \<Rightarrow> raw_point list \<Rightarrow> entry list \<Rightarrow> nat \<Rightarrow> pyfloat \<Rightarrow> pyfloat
    \<Rightarrow> pyfloat \<Rightarrow> error + pyfloat \<times> pyfloat \<times> pyfloat" where
  "from_prev ginv points profile idx lat lon resolved_ele =
     (case item points (idx - 1) of
        Inl x \<Rightarrow> Inl x
      | Inr prev \<Rightarrow>
          (case ginv (fst (snd prev)) (fst prev) lon lat of
             (azim, _, dst) \<Rightarrow>
               (case last_item profile of
                  Inl x \<Rightarrow> Inl x
                | Inr pr \<Rightarrow>
                    (case fsub_opt resolved_ele (p_ele pr) of
                       Inl x \<Rightarrow> Inl x
                     | Inr d_ele \<Rightarrow> Inr (dst, azim, d_ele)))))"

text \<open>
  The loop of \<^verbatim>\<open>build_profile\<close> over \<^verbatim>\<open>enumerate(points)\<close>. Its state is the profile,
  the variables \<open>dist\<close> (here \<open>dst\<close>), \<open>azim\<close>, \<open>d_ele\<close>, the logs and the requests sent.
\<close>

type_synonym build_state =
  "entry list \<times> pyfloat \<times> pyfloat \<times> pyfloat \<times> log_record list \<times> request list"

fun build_loop :: "(string \<Rightarrow> pyfloat option) \<Rightarrow> http_service \<Rightarrow> transformer \<Rightarrow> geod \<Rightarrow> bool
    \<Rightarrow> raw_point list \<Rightarrow> (nat \<times> raw_point) list \<Rightarrow> build_state \<Rightarrow> error + build_state" where
  "build_loop pf http tr ginv use points [] st = Inr st"
| "build_loop pf http tr ginv use points ((idx, (lat, lon, ele)) # rest)
       (profile, dst, azim, d_ele, logs, sent) =
     (case tr lon lat of
        (e, n) \<Rightarrow>
          (case fetch_elevation pf http ele e n use of
             (resolved_ele, warnings, asked) \<Rightarrow>
               (case (if idx > 0 then from_prev ginv points profile idx lat lon resolved_ele
                      else Inr (dst, azim, d_ele)) of
                  Inl x \<Rightarrow> Inl x
                | Inr (dst', azim', d_ele') \<Rightarrow>
                    build_loop pf http tr ginv use points rest
                      (profile @ [\<lparr>p_e = e, p_n = n, p_ele = Some resolved_ele, p_dist = dst',
                                   p_azimuth = azim', p_delta_ele = d_ele'\<rparr>],
                       dst', azim', d_ele', logs @ warnings, sent @ asked))))"

definition enumerate_from :: "nat \<Rightarrow> 'a list \<Rightarrow> (nat \<times> 'a) list" where
  "enumerate_from k xs = zip [k..<k + length xs] xs"

definition build_profile :: "(string \<Rightarrow> pyfloat option) \<Rightarrow> http_service \<Rightarrow> transformer \<Rightarrow> geod
    \<Rightarrow> raw_point list \<Rightarrow> bool \<Rightarrow> error + entry list \<times> log_record list \<times> request list" where
  "build_profile pf http tr ginv points use_height_api =
     (case build_loop pf http tr ginv use_height_api points (enumerate_from 0 points)
             ([], 0, 0, 0, [], []) of
        Inl x \<Rightarrow> Inl x
      | Inr (profile, _, _, _, logs, sent) \<Rightarrow> Inr (profile, logs, sent))"

text \<open>\<^verbatim>\<open>max(a, b)\<close>: the first argument unless the second is greater.\<close>

definition py_max :: "pyfloat \<Rightarrow> pyfloat \<Rightarrow> pyfloat" where
  "py_max a b = (if a < b then b else a)"

text \<open>
  The lines of the report. Text is a list of bytes, and padding counts characters, so the
  two headings with a character outside ASCII are padded by hand.
\<close>

definition header :: string where
  "header = replicate 100 CHR ''='' @ [newline] @ ''KROKI - Route profile (LV95)'' @ [newline]
            @ replicate 100 CHR ''=''"

definition col_hdr :: string where
  "col_hdr = ljust 4 ''Pt'' @ '' '' @ rjust 12 ''E (m)'' @ '' '' @ rjust 12 ''N (m)'' @ '' ''
             @ rjust 12 ''Dist (m)'' @ '' '' @ rjust 12 ''Elev (m)'' @ '' ''
             @ replicate 3 CHR '' '' @ [CHR 0xCE, CHR 0x94] @ ''Elev (m)'' @ '' ''
             @ replicate 4 CHR '' '' @ ''Azim ('' @ [CHR 0xC2, CHR 0xB0] @ '')''"

definition row :: "nat \<times> entry \<Rightarrow> string" where
  "row ip =
     (case ip of
        (i, pt) \<Rightarrow>
          (let elev_str = (case p_ele pt of Some v \<Rightarrow> fmt2 v | None \<Rightarrow> ''N/A'')
           in ljust 4 (str_nat i) @ '' '' @ rjust 12 (fmt2 (p_e pt)) @ '' ''
              @ rjust 12 (fmt2 (p_n pt)) @ '' '' @ rjust 12 (fmt2 (p_dist pt)) @ '' ''
              @ rjust 12 elev_str @ '' '' @ rjust 12 (fmt2 (p_delta_ele pt)) @ '' ''
              @ rjust 12 (fmt2 (p_azimuth pt))))"

definition total_dist :: "entry list \<Rightarrow> pyfloat" where
  "total_dist profile = py_sum (map p_dist profile)"

definition ascent :: "entry list \<Rightarrow> pyfloat" where
  "ascent profile = py_sum (map (\<lambda>p. py_max 0 (p_delta_ele p)) (drop 1 profile))"

definition descent :: "entry list \<Rightarrow> pyfloat" where
  "descent profile = py_sum (map (\<lambda>p. py_max 0 (- p_delta_ele p)) (drop 1 profile))"

definition profile_lines :: "entry list \<Rightarrow> string list" where
  "profile_lines profile =
     [header, '''', col_hdr, replicate 100 CHR ''-'']
     @ map row (enumerate_from 1 profile)
     @ [replicate 100 CHR ''-'']
     @ [newline # ''Total distance: '' @ fmt2 (total_dist profile) @ nnbsp @ ''m'']
     @ (if list_all (\<lambda>p. p_ele p \<noteq> None) profile
        then [''Total ascent : '' @ fmt2 (ascent profile) @ nnbsp @ ''m'',
              ''Total descent: '' @ fmt2 (descent profile) @ nnbsp @ ''m'']
        else [])"

definition format_profile :: "entry list \<Rightarrow> string" where
  "format_profile profile = join_lines (profile_lines profile)"

text \<open>
  \<^verbatim>\<open>main\<close>, for an input file \<open>gpx_file\<close> that exists and is well-formed XML: the exit
  status, what is printed, the file written, the log and the requests sent. \<open>core\<close> is the
  part of the \<^verbatim>\<open>try\<close> before the output; \<open>failed\<close> is the two \<^verbatim>\<open>except\<close> clauses.
\<close>

record lv95_run =
  exit_status :: nat
  printed :: "string list"
  written :: "(string \<times> string) option"
  logged :: "log_record list"
  requested :: "request list"

definition core :: "(string \<Rightarrow> pyfloat option) \<Rightarrow> http_service \<Rightarrow> transformer \<Rightarrow> geod
    \<Rightarrow> element \<Rightarrow> bool \<Rightarrow> error + string \<times> log_record list \<times> request list" where
  "core pf http tr ginv doc use_height_api =
     (case parse_gpx pf doc of
        Inl x \<Rightarrow> Inl x
      | Inr raw_points \<Rightarrow>
          if raw_points = [] then Inl (ValueError ''No track/route points found in the GPX file.'')
          else (case build_profile pf http tr ginv raw_points use_height_api of
                  Inl x \<Rightarrow> Inl x
                | Inr (profile, logs, sent) \<Rightarrow> Inr (format_profile profile, logs, sent)))"

definition failed :: "string \<Rightarrow> error \<Rightarrow> log_record list \<Rightarrow> request list \<Rightarrow> lv95_run" where
  "failed gpx_file exc logs sent =
     \<lparr>exit_status = 1, printed = [], written = None,
      logged = logs @ [Error (if exc = FileNotFoundError then ''File not found: '' @ gpx_file
                              else ''Unexpected error: '' @ str_error exc)],
      requested = sent\<rparr>"

definition main :: "(string \<Rightarrow> pyfloat option) \<Rightarrow> http_service \<Rightarrow> transformer \<Rightarrow> geod
    \<Rightarrow> file_system \<Rightarrow> string \<Rightarrow> element \<Rightarrow> string option \<Rightarrow> bool \<Rightarrow> lv95_run" where
  "main pf http tr ginv fs gpx_file doc output_file use_height_api =
     (case core pf http tr ginv doc use_height_api of
        Inl exc \<Rightarrow> failed gpx_file exc [] []
      | Inr (report, logs, sent) \<Rightarrow>
          (case output_file of
             Some path \<Rightarrow>
               (case fs path of
                  Some exc \<Rightarrow> failed gpx_file exc logs sent
                | None \<Rightarrow>
                    \<lparr>exit_status = 0, printed = [], written = Some (path, report),
                     logged = logs @ [Info (''Kroki written to '' @ path)], requested = sent\<rparr>)
           | None \<Rightarrow>
               \<lparr>exit_status = 0, printed = [report], written = None, logged = logs,
                requested = sent\<rparr>))"

section \<open>gpx2kroki: projection, elevation and report\<close>

text \<open>
  \<^verbatim>\<open>fetch_elevation_swisstopo\<close>: the elevation, or \<^verbatim>\<open>None\<close>, what is printed to the
  error stream, and the requests sent. \<open>read_height\<close> is the body of its \<^verbatim>\<open>try\<close>.
\<close>

definition read_height :: "(string \<Rightarrow> pyfloat option) \<Rightarrow> http_service \<Rightarrow> pyfloat \<Rightarrow> pyfloat
    \<Rightarrow> (error + pyfloat option) \<times> request list" where
  "read_height pf http e n =
     (case urlopen http e n of
        (answer, sent) \<Rightarrow>
          ((case answer of
              Inl x \<Rightarrow> Inl x
            | Inr response \<Rightarrow>
                (case json_of response of
                   Inl x \<Rightarrow> Inl x
                 | Inr data \<Rightarrow>
                     (case contains data ''height'' of
                        Inl x \<Rightarrow> Inl x
                      | Inr present \<Rightarrow>
                          if present
                          then (case subscript data ''height'' of
                                  Inl x \<Rightarrow> Inl x
                                | Inr v \<Rightarrow>
                                    (case float_json pf v of
                                       Inl x \<Rightarrow> Inl x
                                     | Inr h \<Rightarrow> Inr (Some h)))
                          else Inr None))),
           sent))"

definition fetch_elevation_swisstopo :: "(string \<Rightarrow> pyfloat option) \<Rightarrow> http_service \<Rightarrow> pyfloat
    \<Rightarrow> pyfloat \<Rightarrow> pyfloat option \<times> string list \<times> request list" where
  "fetch_elevation_swisstopo pf http e n =
     (case read_height pf http e n of
        (Inr r, sent) \<Rightarrow> (r, [], sent)
      | (Inl ex, sent) \<Rightarrow>
          (None, [''Warning: Could not fetch elevation for E='' @ fmt2 e @ '', N='' @ fmt2 n
                  @ '': '' @ str_error ex], sent))"

text \<open>
  The projection by the approximate formulas. The six powers are evaluated in the order
  of the source, so the first one that overflows ends the function.
\<close>

definition wgs84_to_lv95 :: "pyfloat \<Rightarrow> pyfloat \<Rightarrow> error + pyfloat \<times> pyfloat" where
  "wgs84_to_lv95 lat lon =
     (let lat_aux = fdiv (fsub (fmul lat 3600) (round64 169028.66)) 10000;
          lon_aux = fdiv (fsub (fmul lon 3600) (round64 26782.5)) 10000
      in and_then (fpow lat_aux 2) (\<lambda>lat2.
         and_then (fpow lon_aux 3) (\<lambda>lon3.
         and_then (fpow lon_aux 2) (\<lambda>lon2.
         and_then (fpow lat_aux 2) (\<lambda>lat2'.
         and_then (fpow lon_aux 2) (\<lambda>lon2'.
         and_then (fpow lat_aux 3) (\<lambda>lat3.
           (let E = fsub (fsub (fsub (fadd (round64 2600072.37)
                                           (fmul (round64 211455.93) lon_aux))
                                     (fmul (fmul (round64 10938.51) lon_aux) lat_aux))
                               (fmul (fmul (round64 0.36) lon_aux) lat2))
                         (fmul (round64 44.54) lon3);
                N = fadd (fsub (fadd (fadd (fadd (round64 1200147.07)
                                                 (fmul (round64 308807.95) lat_aux))
                                           (fmul (round64 3745.25) lon2))
                                     (fmul (round64 76.63) lat2'))
                               (fmul (fmul (round64 194.56) lon2') lat_aux))
                         (fmul (round64 119.79) lat3)
            in Inr (E, N)))))))))"

definition calculate_distance :: "pyfloat \<Rightarrow> pyfloat \<Rightarrow> pyfloat \<Rightarrow> pyfloat
    \<Rightarrow> error + pyfloat" where
  "calculate_distance e1 n1 e2 n2 =
     and_then (fpow (fsub e2 e1) 2) (\<lambda>de2.
     and_then (fpow (fsub n2 n1) 2) (\<lambda>dn2.
       Inr (round64 (sqrt (fadd de2 dn2)))))"

text \<open>
  \<^verbatim>\<open>math.atan2\<close> and \<^verbatim>\<open>math.degrees\<close>, taken as correctly rounded; \<^verbatim>\<open>degrees\<close>
  multiplies by the quotient of 180 and the float nearest to \<open>pi\<close>.
\<close>

definition atan2 :: "real \<Rightarrow> real \<Rightarrow> real" where
  "atan2 y x =
     (if 0 < x then arctan (y / x)
      else if x < 0 then (if 0 \<le> y then arctan (y / x) + pi else arctan (y / x) - pi)
      else if 0 < y then pi / 2 else if y < 0 then - pi / 2 else 0)"

definition math_atan2 :: "pyfloat \<Rightarrow> pyfloat \<Rightarrow> pyfloat" where
  "math_atan2 y x = round64 (atan2 y x)"

definition math_degrees :: "pyfloat \<Rightarrow> pyfloat" where
  "math_degrees x = fmul x (fdiv 180 (round64 pi))"

definition calculate_azimuth :: "pyfloat \<Rightarrow> pyfloat \<Rightarrow> pyfloat \<Rightarrow> pyfloat \<Rightarrow> pyfloat" where
  "calculate_azimuth e1 n1 e2 n2 =
     (let delta_e = fsub e2 e1;
          delta_n = fsub n2 n1;
          azimuth_rad = math_atan2 delta_e delta_n;
          azimuth_deg = math_degrees azimuth_rad
      in if azimuth_deg < 0 then fadd azimuth_deg 360 else azimuth_deg)"

type_synonym swiss_point = "pyfloat \<times> pyfloat \<times> pyfloat option"

text \<open>
  The first loop of \<^verbatim>\<open>generate_kroki\<close>, over \<^verbatim>\<open>enumerate(points)\<close>: its state is
  \<open>swiss_points\<close>, the lines printed to the error stream and the requests sent. The
  result is the state reached and the exception that has ended the loop, if any.
\<close>

type_synonym swiss_state = "swiss_point list \<times> string list \<times> request list"

fun swiss_loop :: "(string \<Rightarrow> pyfloat option) \<Rightarrow> http_service \<Rightarrow> bool \<Rightarrow> (nat \<times> raw_point) list
    \<Rightarrow> swiss_state \<Rightarrow> swiss_state \<times> error option" where
  "swiss_loop pf http fetch [] st = (st, None)"
| "swiss_loop pf http fetch ((i, (lat, lon, ele)) # rest) (swiss_points, err, sent) =
     (case wgs84_to_lv95 lat lon of
        Inl x \<Rightarrow> ((swiss_points, err, sent), Some x)
      | Inr (e, n) \<Rightarrow>
          (case (if ele = None \<and> fetch
                 then (case fetch_elevation_swisstopo pf http e n of
                         (ele', warning, asked) \<Rightarrow>
                           (ele', warning
                              @ (case ele' of
                                   Some v \<Rightarrow> [''  Point '' @ str_nat (i + 1)
                                              @ '': Elevation fetched: '' @ fmt2 v @ '' m'']
                                 | None \<Rightarrow> []),
                            asked))
                 else (ele, [], [])) of
             (ele', msgs, asked) \<Rightarrow>
               swiss_loop pf http fetch rest
                 (swiss_points @ [(e, n, ele')], err @ msgs, sent @ asked)))"

text \<open>
  The second loop, over \<^verbatim>\<open>enumerate(swiss_points, start=1)\<close>. \<open>row_values\<close> gives the
  variables \<open>dist\<close>, \<open>ele_str\<close>, \<open>delta_ele\<close> and \<open>azimuth\<close> of one pass, \<open>kroki_row\<close> the
  line appended.
\<close>

definition row_values :: "swiss_point list \<Rightarrow> nat \<Rightarrow> swiss_point
    \<Rightarrow> error + pyfloat \<times> string \<times> pyfloat \<times> pyfloat" where
  "row_values swiss_points i p =
     (case p of
        (e, n, ele) \<Rightarrow>
          if i = 1
          then Inr (0, (case ele of Some v \<Rightarrow> fmt2 v | None \<Rightarrow> ''N/A''), 0, 0)
          else (case item swiss_points (i - 2) of
                  Inl x \<Rightarrow> Inl x
                | Inr (prev_e, prev_n, prev_ele) \<Rightarrow>
                    (case calculate_distance prev_e prev_n e n of
                       Inl x \<Rightarrow> Inl x
                     | Inr dst \<Rightarrow>
                         (let azimuth = calculate_azimuth prev_e prev_n e n
                          in (case (ele, prev_ele) of
                                (Some v, Some pv) \<Rightarrow> Inr (dst, fmt2 v, fsub v pv, azimuth)
                              | _ \<Rightarrow> Inr (dst, ''N/A'', 0, azimuth))))))"

definition kroki_row :: "nat \<Rightarrow> pyfloat \<Rightarrow> pyfloat \<Rightarrow> pyfloat \<times> string \<times> pyfloat \<times> pyfloat
    \<Rightarrow> string" where
  "kroki_row i e n vals =
     (case vals of
        (dst, ele_str, delta_ele, azimuth) \<Rightarrow>
          ljust 6 (str_nat i) @ '' '' @ ljust 12 (fmt2 e) @ '' '' @ ljust 12 (fmt2 n) @ '' ''
          @ ljust 12 (fmt2 dst) @ '' '' @ ljust 12 ele_str @ '' '' @ ljust 12 (fmt2 delta_ele)
          @ '' '' @ ljust 12 (fmt2 azimuth))"

fun rows_loop :: "swiss_point list \<Rightarrow> (nat \<times> swiss_point) list \<Rightarrow> string list
    \<Rightarrow> error + string list" where
  "rows_loop swiss_points [] output_lines = Inr output_lines"
| "rows_loop swiss_points ((i, p) # rest) output_lines =
     (case row_values swiss_points i p of
        Inl x \<Rightarrow> Inl x
      | Inr vals \<Rightarrow>
          rows_loop swiss_points rest
            (output_lines @ [kroki_row i (fst p) (fst (snd p)) vals]))"

definition kroki_header :: "string list" where
  "kroki_header =
     [replicate 100 CHR ''='',
      ''KROKI - Route Profile with Swiss LV95 Coordinates'',
      replicate 100 CHR ''='',
      '''',
      ljust 6 ''Punkt'' @ '' '' @ ljust 12 ''E (m)'' @ '' '' @ ljust 12 ''N (m)'' @ '' ''
      @ ljust 12 ''Dist (m)'' @ '' '' @ ljust 12 ''Hoehe (m)'' @ '' '' @ ljust 12 ''Delta H (m)''
      @ '' '' @ ''Azimuth ('' @ [CHR 0xC2, CHR 0xB0] @ '') '',
      replicate 100 CHR ''-'']"

text \<open>
  The totals. The indices of the three sums come from \<^verbatim>\<open>range(1, len(swiss_points))\<close>;
  \<open>segment\<close> is the distance that the first sum takes at the index \<open>i\<close>, \<open>distances\<close>
  the generator expression that it consumes, and \<open>those\<close> gives the elevations when none is
  \<^verbatim>\<open>None\<close>.
\<close>

definition segment :: "swiss_point list \<Rightarrow> nat \<Rightarrow> error + pyfloat" where
  "segment sp i =
     calculate_distance (fst (sp ! (i - 1))) (fst (snd (sp ! (i - 1))))
       (fst (sp ! i)) (fst (snd (sp ! i)))"

definition distances :: "swiss_point list \<Rightarrow> error + pyfloat list" where
  "distances sp = collect (map (segment sp) [1..<length sp])"

definition kroki_total_dist :: "swiss_point list \<Rightarrow> error + pyfloat" where
  "kroki_total_dist sp = (case distances sp of Inl x \<Rightarrow> Inl x | Inr ds \<Rightarrow> Inr (py_sum ds))"

definition total_ascent :: "pyfloat list \<Rightarrow> pyfloat" where
  "total_ascent h = py_sum (map (\<lambda>i. py_max 0 (fsub (h ! i) (h ! (i - 1)))) [1..<length h])"

definition total_descent :: "pyfloat list \<Rightarrow> pyfloat" where
  "total_descent h = py_sum (map (\<lambda>i. py_max 0 (fsub (h ! (i - 1)) (h ! i))) [1..<length h])"

definition totals :: "swiss_point list \<Rightarrow> error + string list" where
  "totals sp =
     (case kroki_total_dist sp of
        Inl x \<Rightarrow> Inl x
      | Inr total_d \<Rightarrow>
          (case those (map (\<lambda>p. snd (snd p)) sp) of
             Some h \<Rightarrow>
               Inr [newline # ''Total Distance: '' @ fmt2 total_d @ '' m'',
                    ''Total Ascent: '' @ fmt2 (total_ascent h) @ '' m'',
                    ''Total Descent: '' @ fmt2 (total_descent h) @ '' m'']
           | None \<Rightarrow> Inr [newline # ''Total Distance: '' @ fmt2 total_d @ '' m'']))"

definition output_lines_of :: "swiss_point list \<Rightarrow> error + string list" where
  "output_lines_of sp =
     (case rows_loop sp (enumerate_from 1 sp) kroki_header of
        Inl x \<Rightarrow> Inl x
      | Inr ls \<Rightarrow>
          (case totals sp of
             Inl x \<Rightarrow> Inl x
           | Inr ts \<Rightarrow> Inr (ls @ [replicate 100 CHR ''-''] @ ts @ [''''])))"

record kroki_run =
  k_stdout :: "string list"
  k_stderr :: "string list"
  k_written :: "(string \<times> string) option"
  k_requests :: "request list"

text \<open>
  \<^verbatim>\<open>generate_kroki\<close>, for an input file that exists and is well-formed XML. It returns
  nothing; the result here is what it has printed, written and asked, and the exception
  that has ended it, if any. An empty \<open>output_file\<close> counts as none
  (\<^verbatim>\<open>if output_file:\<close>).
\<close>

definition generate_kroki :: "(string \<Rightarrow> pyfloat option) \<Rightarrow> http_service \<Rightarrow> file_system
    \<Rightarrow> element \<Rightarrow> string option \<Rightarrow> bool \<Rightarrow> kroki_run \<times> error option" where
  "generate_kroki pf http fs doc output_file fetch =
     (case kroki_parse_gpx pf doc of
        Inl x \<Rightarrow>
          (\<lparr>k_stdout = [], k_stderr = [], k_written = None, k_requests = []\<rparr>, Some x)
      | Inr points \<Rightarrow>
          if points = []
          then (\<lparr>k_stdout = [], k_stderr = [''Error: No points found in GPX file''],
                 k_written = None, k_requests = []\<rparr>, None)
          else
            (let missing_elevation = list_ex (\<lambda>p. snd (snd p) = None) points;
                 err0 = (if missing_elevation \<and> fetch
                         then [''Fetching elevation data from swisstopo API...''] else [])
             in (case swiss_loop pf http fetch (enumerate_from 0 points) ([], err0, []) of
                   ((swiss_points, err1, sent), Some x) \<Rightarrow>
                     (\<lparr>k_stdout = [], k_stderr = err1, k_written = None, k_requests = sent\<rparr>,
                      Some x)
                 | ((swiss_points, err1, sent), None) \<Rightarrow>
                     (let err2 = err1 @ (if missing_elevation \<and> fetch then [''''] else [])
                      in (case output_lines_of swiss_points of
                            Inl x \<Rightarrow>
                              (\<lparr>k_stdout = [], k_stderr = err2, k_written = None,
                                k_requests = sent\<rparr>, Some x)
                          | Inr output_lines \<Rightarrow>
                              (let output_text = join_lines output_lines
                               in (case (case output_file of
                                           Some path \<Rightarrow> if path \<noteq> [] then Some path else None
                                         | None \<Rightarrow> None) of
                                     Some path \<Rightarrow>
                                       (case fs path of
                                          Some x \<Rightarrow>
                                            (\<lparr>k_stdout = [], k_stderr = err2, k_written = None,
                                              k_requests = sent\<rparr>, Some x)
                                        | None \<Rightarrow>
                                            (\<lparr>k_stdout = [''Kroki saved to: '' @ path],
                                              k_stderr = err2,
                                              k_written = Some (path, output_text),
                                              k_requests = sent\<rparr>, None))
                                   | None \<Rightarrow>
                                       (\<lparr>k_stdout = [output_text], k_stderr = err2,
                                         k_written = None, k_requests = sent\<rparr>, None))))))))"

text \<open>
  \<^verbatim>\<open>main\<close> after its arguments are read, with the exit status of the process: an
  exception ends it with a message and status 1, a return of \<^verbatim>\<open>generate_kroki\<close> with
  status 0.
\<close>

definition kroki_main :: "(string \<Rightarrow> pyfloat option) \<Rightarrow> http_service \<Rightarrow> file_system \<Rightarrow> string
    \<Rightarrow> element \<Rightarrow> string option \<Rightarrow> bool \<Rightarrow> nat \<times> kroki_run" where
  "kroki_main pf http fs gpx_file doc output_file fetch =
     (case generate_kroki pf http fs doc output_file fetch of
        (r, None) \<Rightarrow> (0, r)
      | (r, Some ex) \<Rightarrow>
          (1, r\<lparr>k_stderr := k_stderr r
                   @ [if ex = FileNotFoundError
                      then ''Error: File '' @ [CHR 0x27] @ gpx_file @ [CHR 0x27] @ '' not found''
                      else ''Error: '' @ str_error ex]\<rparr>))"

section \<open>Notions used in the statements\<close>

text \<open>A point element that carries both coordinate attributes.\<close>

definition has_coords :: "element \<Rightarrow> bool" where
  "has_coords e = (get e ''lat'' \<noteq> None \<and> get e ''lon'' \<noteq> None)"

text \<open>
  The fixed precedence in the words of the specification: the categories are tried in
  order, the first one that yields at least one point is the result, and nothing of a
  later category is added to it. A category that raises ends the search.
\<close>

fun precedence :: "(error + 'a list) list \<Rightarrow> error + 'a list" where
  "precedence [] = Inr []"
| "precedence (c # cs) =
     (case c of Inl x \<Rightarrow> Inl x | Inr ps \<Rightarrow> if ps \<noteq> [] then Inr ps else precedence cs)"

text \<open>The first of the three categories that has an element: its elements.\<close>

definition first_category :: "element \<Rightarrow> element list" where
  "first_category doc = py_or (findall trkpt doc) (py_or (findall rtept doc) (findall wpt doc))"

text \<open>
  What gpx2lv95 resolves for one point, and the entry that \<^verbatim>\<open>build_profile\<close> is expected
  to hold at index \<open>i\<close>.
\<close>

definition resolve :: "(string \<Rightarrow> pyfloat option) \<Rightarrow> http_service \<Rightarrow> transformer \<Rightarrow> bool
    \<Rightarrow> raw_point \<Rightarrow> pyfloat \<times> log_record list \<times> request list" where
  "resolve pf http tr use p =
     (case p of (lat, lon, ele) \<Rightarrow>
        (case tr lon lat of (e, n) \<Rightarrow> fetch_elevation pf http ele e n use))"

definition expected_entry :: "(string \<Rightarrow> pyfloat option) \<Rightarrow> http_service \<Rightarrow> transformer \<Rightarrow> geod
    \<Rightarrow> bool \<Rightarrow> raw_point list \<Rightarrow> nat \<Rightarrow> entry" where
  "expected_entry pf http tr ginv use points i =
     (let p = points ! i; q = points ! (i - 1);
          en = tr (fst (snd p)) (fst p);
          g = ginv (fst (snd q)) (fst q) (fst (snd p)) (fst p)
      in \<lparr>p_e = fst en, p_n = snd en,
          p_ele = Some (fst (resolve pf http tr use p)),
          p_dist = (if i = 0 then 0 else snd (snd g)),
          p_azimuth = (if i = 0 then 0 else fst g),
          p_delta_ele = (if i = 0 then 0
                         else fsub (fst (resolve pf http tr use p))
                                   (fst (resolve pf http tr use q)))\<rparr>)"

text \<open>
  A point within the ranges that the specification gives for a raw point: latitude from
  -90 to 90, longitude from -180 to 180.
\<close>

definition in_range :: "raw_point \<Rightarrow> bool" where
  "in_range p = (\<bar>fst p\<bar> \<le> 90 \<and> \<bar>fst (snd p)\<bar> \<le> 180)"

text \<open>
  The planar coordinates of a point of \<open>swiss_points\<close>, and the row of the table for the
  point with number \<open>i\<close>.
\<close>

definition coords :: "swiss_point \<Rightarrow> pyfloat \<times> pyfloat" where
  "coords p = (fst p, fst (snd p))"

definition table_row :: "swiss_point list \<Rightarrow> nat \<times> swiss_point \<Rightarrow> string" where
  "table_row sp ip =
     kroki_row (fst ip) (fst (snd ip)) (fst (snd (snd ip)))
       (projr (row_values sp (fst ip) (snd ip)))"

text \<open>
  Three documents. The first has a track point without \<open>lat\<close> before a complete one; the
  second has a way-point before a track with one point; the third has one track point
  without elevation.
\<close>

definition doc_missing_lat :: element where
  "doc_missing_lat =
     Element (gpx_ns @ ''gpx'') [] None
       [Element (gpx_ns @ ''trk'') [] None
          [Element (gpx_ns @ ''trkseg'') [] None
             [Element trkpt [(''lon'', ''7.5'')] None [],
              Element trkpt [(''lat'', ''46.5''), (''lon'', ''7.5'')] None
                [Element ele_tag [] (Some ''1000.25'') []]]]]"

definition doc_wpt_and_trk :: element where
  "doc_wpt_and_trk =
     Element (gpx_ns @ ''gpx'') [] None
       [Element wpt [(''lat'', ''47''), (''lon'', ''8'')] None [],
        Element (gpx_ns @ ''trk'') [] None
          [Element (gpx_ns @ ''trkseg'') [] None
             [Element trkpt [(''lat'', ''46.5''), (''lon'', ''7.5'')] None
                [Element ele_tag [] (Some ''1000.25'') []]]]]"

definition doc_no_ele :: element where
  "doc_no_ele =
     Element (gpx_ns @ ''gpx'') [] None
       [Element (gpx_ns @ ''trk'') [] None
          [Element (gpx_ns @ ''trkseg'') [] None
             [Element trkpt [(''lat'', ''46.5''), (''lon'', ''7.5'')] None []]]]"

text \<open>A document with a way-point and a track whose only point has no \<open>lat\<close>.\<close>

definition doc_track_without_lat :: element where
  "doc_track_without_lat =
     Element (gpx_ns @ ''gpx'') [] None
       [Element wpt [(''lat'', ''47''), (''lon'', ''8'')] None [],
        Element (gpx_ns @ ''trk'') [] None
          [Element (gpx_ns @ ''trkseg'') [] None
             [Element trkpt [(''lon'', ''7.5'')] None []]]]"

text \<open>A document without any point.\<close>

definition doc_empty :: element where
  "doc_empty = Element (gpx_ns @ ''gpx'') [] None []"

text \<open>
  Height services: one that is out of reach, one that answers with the status 500, one
  whose answer is not JSON, one that answers without a height, and one that answers with
  the status 300 and a height in the body.
\<close>

definition unreachable :: http_service where
  "unreachable e n = Inl RequestError"

definition server_error :: http_service where
  "server_error e n = Inr (Reply 500 None)"

definition not_json :: http_service where
  "not_json e n = Inr (Reply 200 None)"

definition no_height :: http_service where
  "no_height e n = Inr (Reply 200 (Some (JObject [])))"

definition multiple_choices :: http_service where
  "multiple_choices e n = Inr (Reply 300 (Some (JObject [(''height'', JNumber 500)])))"

text \<open>A file system on which every file can be written, and one on which none can.\<close>

definition writable :: file_system where
  "writable path = None"

definition no_directory :: file_system where
  "no_directory path = Some FileNotFoundError"

text \<open>
  Stand-ins for the two pyproj objects where a concrete input is evaluated: a projection
  that sends every point to the origin of LV95, and a geodesic inverse that is constant.
\<close>

definition origin_transform :: transformer where
  "origin_transform lon lat = (2600000, 1200000)"

definition flat_geod :: geod where
  "flat_geod lon1 lat1 lon2 lat2 = (0, 0, 0)"

text \<open>The floats nearest to 0.1, 0.2, 0.3 and 0.4.\<close>

definition f01 :: pyfloat where "f01 = 3602879701896397 / 36028797018963968"
definition f02 :: pyfloat where "f02 = 3602879701896397 / 18014398509481984"
definition f03 :: pyfloat where "f03 = 5404319552844595 / 18014398509481984"
definition f04 :: pyfloat where "f04 = 7205759403792794 / 18014398509481984"

text \<open>
  Planar coordinates of moderate size, as the projection gives them for a point in range,
  and the report of gpx2kroki with one row for each point of \<open>sp\<close> and the lines \<open>ts\<close> of
  totals.
\<close>

definition moderate :: "swiss_point \<Rightarrow> bool" where
  "moderate q = (\<bar>fst q\<bar> \<le> 2 ^ 130 \<and> \<bar>fst (snd q)\<bar> \<le> 2 ^ 130)"

definition kroki_report :: "swiss_point list \<Rightarrow> string list \<Rightarrow> string" where
  "kroki_report sp ts =
     join_lines (kroki_header @ map (table_row sp) (enumerate_from 1 sp)
                 @ [replicate 100 CHR ''-''] @ ts @ [''''])"

section \<open>Rounding\<close>

lemma rne_of_int [simp]: "rne (of_int k) = k"
  by (simp add: rne_def)

lemma floor_log2_binade:
  fixes x :: real and e :: int
  assumes "2 powr (of_int e) \<le> x" and "x < 2 powr (of_int e + 1)"
  shows "\<lfloor>log 2 x\<rfloor> = e"
proof -
  have pos: "0 < x" using assms(1) by (smt (verit) powr_gt_zero)
  have "of_int e \<le> log 2 x"
    using assms(1) pos by (simp add: le_log_iff)
  moreover have "log 2 x < of_int e + 1"
    using assms(2) pos by (simp add: log_less_iff)
  ultimately show ?thesis
    by (simp add: floor_eq_iff)
qed

text \<open>A number between \<open>2^52 / 2^k\<close> and \<open>2^53 / 2^k\<close> is rounded to a multiple of \<open>1 / 2^k\<close>.\<close>

lemma round64_binade:
  fixes x :: real and k :: nat
  assumes "2 ^ 52 \<le> \<bar>x\<bar> * 2 ^ k" and "\<bar>x\<bar> * 2 ^ k < 2 ^ 53" and "k \<le> 1074"
  shows "round64 x = of_int (rne (x * 2 ^ k)) / 2 ^ k"
proof -
  define e :: int where "e = 52 - int k"
  have x0: "x \<noteq> 0" using assms(1) by auto
  have pk: "(2::real) powr (real k) = 2 ^ k"
    by (simp add: powr_realpow)
  have "(2::real) powr (of_int e) = 2 powr 52 / 2 powr (real k)"
    by (simp add: e_def powr_diff)
  then have p: "(2::real) powr (of_int e) = 2 ^ 52 / 2 ^ k"
    by (simp add: pk)
  have "(2::real) powr (of_int e + 1) = 2 powr 53 / 2 powr (real k)"
    by (simp add: e_def powr_diff)
  then have p1: "(2::real) powr (of_int e + 1) = 2 ^ 53 / 2 ^ k"
    by (simp add: pk)
  have "2 powr (of_int e) \<le> \<bar>x\<bar>"
    using assms(1) by (simp add: p divide_le_eq)
  moreover have "\<bar>x\<bar> < 2 powr (of_int e + 1)"
    using assms(2) by (simp add: p1 less_divide_eq)
  ultimately have fl: "\<lfloor>log 2 \<bar>x\<bar>\<rfloor> = e"
    by (rule floor_log2_binade)
  have mx: "max e (- 1022) = e" using assms(3) by (simp add: e_def)
  have q: "(2::real) powr (of_int e - 52) = 1 / 2 ^ k"
    by (simp add: e_def powr_minus pk inverse_eq_divide)
  show ?thesis
    using x0 by (simp add: round64_def fl mx q Let_def)
qed

text \<open>A multiple \<open>m / 2^k\<close> with \<open>\<bar>m\<bar> < 2^53\<close> is a float: rounding leaves it as it is.\<close>

lemma round64_grid:
  fixes x :: real and k :: nat and m :: int
  assumes xm: "x * 2 ^ k = of_int m" and m: "\<bar>m\<bar> < 2 ^ 53" and k: "k \<le> 1074"
  shows "round64 x = x"
proof (cases "x = 0")
  case True
  then show ?thesis by (simp add: round64_def)
next
  case False
  define E :: int where "E = max \<lfloor>log 2 \<bar>x\<bar>\<rfloor> (- 1022)"
  have pk: "(2::real) powr (real k) = 2 ^ k"
    by (simp add: powr_realpow)
  have ax: "\<bar>x\<bar> * 2 ^ k = of_int \<bar>m\<bar>"
  proof -
    have "\<bar>x\<bar> * 2 ^ k = \<bar>x * 2 ^ k\<bar>" by (simp add: abs_mult)
    then show ?thesis by (simp add: xm)
  qed
  have "\<bar>x\<bar> * 2 ^ k < 2 ^ 53"
    using m ax by (metis of_int_less_iff of_int_numeral of_int_power)
  then have "\<bar>x\<bar> < 2 ^ 53 / 2 ^ k"
    by (simp add: less_divide_eq)
  also have "\<dots> = 2 powr (53 - real k)"
    by (simp add: powr_diff pk)
  finally have "log 2 \<bar>x\<bar> < 53 - real k"
    using False by (simp add: log_less_iff)
  then have "log 2 \<bar>x\<bar> < of_int (53 - int k)"
    by simp
  then have "\<lfloor>log 2 \<bar>x\<bar>\<rfloor> < 53 - int k"
    by (simp only: floor_less_iff)
  then have Ele: "E \<le> 52 - int k"
    using k by (simp add: E_def)
  define j :: nat where "j = nat (52 - int k - E)"
  have Ej: "of_int E - 52 = - real (k + j)"
    using Ele by (simp add: j_def)
  have q: "(2::real) powr (of_int E - 52) = 1 / 2 ^ (k + j)"
    unfolding Ej by (simp add: powr_minus powr_realpow inverse_eq_divide del: of_nat_add)
  have "x / (1 / 2 ^ (k + j)) = x * 2 ^ k * 2 ^ j"
    by (simp add: power_add)
  also have "\<dots> = of_int (m * 2 ^ j)"
    by (simp add: xm)
  finally have xq: "x / (1 / 2 ^ (k + j)) = of_int (m * 2 ^ j)" .
  have "round64 x = (1 / 2 ^ (k + j)) * of_int (rne (x / (1 / 2 ^ (k + j))))"
    using False by (simp add: round64_def Let_def E_def [symmetric] q)
  also have "\<dots> = (1 / 2 ^ (k + j)) * of_int (m * 2 ^ j)"
    by (simp only: xq rne_of_int)
  also have "\<dots> = (x * 2 ^ k * 2 ^ j) / 2 ^ (k + j)"
    by (simp add: xm)
  also have "\<dots> = x"
    by (simp add: power_add)
  finally show ?thesis .
qed

lemma rne_minus: "rne (- x) = - rne x"
proof (cases "x \<in> \<int>")
  case True
  then obtain z where "x = of_int z" by (auto elim: Ints_cases)
  then show ?thesis
    by (metis of_int_minus rne_of_int)
next
  case False
  then have ne: "x \<noteq> of_int \<lfloor>x\<rfloor>"
    by (metis Ints_of_int)
  then have fl: "\<lfloor>- x\<rfloor> = - \<lfloor>x\<rfloor> - 1"
    by (simp add: floor_minus ceiling_altdef)
  show ?thesis
    unfolding rne_def Let_def fl by auto
qed

lemma round64_minus: "round64 (- x) = - round64 x"
  by (simp add: round64_def Let_def rne_minus)

lemma decimal_float_46_5: "decimal_float ''46.5'' = Some (93 / 2)"
proof -
  have "round64 (93 / 2) = 93 / 2"
    by (rule round64_grid [where k = 1 and m = 93]) simp_all
  then show ?thesis
    by (simp add: decimal_float_def unsigned_decimal_def is_digit_def nat_of_digits_def
        digit_val_def Let_def)
qed

lemma decimal_float_7_5: "decimal_float ''7.5'' = Some (15 / 2)"
proof -
  have "round64 (15 / 2) = 15 / 2"
    by (rule round64_grid [where k = 1 and m = 15]) simp_all
  then show ?thesis
    by (simp add: decimal_float_def unsigned_decimal_def is_digit_def nat_of_digits_def
        digit_val_def Let_def)
qed

lemma decimal_float_1000_25: "decimal_float ''1000.25'' = Some (4001 / 4)"
proof -
  have "round64 (4001 / 4) = 4001 / 4"
    by (rule round64_grid [where k = 2 and m = 4001]) simp_all
  then show ?thesis
    by (simp add: decimal_float_def unsigned_decimal_def is_digit_def nat_of_digits_def
        digit_val_def Let_def)
qed

lemma decimal_float_47: "decimal_float ''47'' = Some 47"
proof -
  have "round64 47 = 47"
    by (rule round64_grid [where k = 0 and m = 47]) simp_all
  then show ?thesis
    by (simp add: decimal_float_def unsigned_decimal_def is_digit_def nat_of_digits_def
        digit_val_def Let_def)
qed

lemma decimal_float_8: "decimal_float ''8'' = Some 8"
proof -
  have "round64 8 = 8"
    by (rule round64_grid [where k = 0 and m = 8]) simp_all
  then show ?thesis
    by (simp add: decimal_float_def unsigned_decimal_def is_digit_def nat_of_digits_def
        digit_val_def Let_def)
qed

lemma rne_bound_nonneg:
  assumes "0 \<le> y"
  shows "0 \<le> rne y \<and> of_int (rne y) \<le> 2 * y"
proof -
  define f where "f = \<lfloor>y\<rfloor>"
  have f0: "0 \<le> f" using assms by (simp add: f_def)
  have fl: "real_of_int f \<le> y" by (simp add: f_def)
  have r0: "0 \<le> real_of_int f" using f0 by simp
  have r: "rne y = f \<or> (rne y = f + 1 \<and> 1 / 2 \<le> y - real_of_int f)"
    unfolding rne_def Let_def f_def [symmetric] by auto
  then show ?thesis
  proof
    assume "rne y = f"
    then show ?thesis using f0 fl r0 assms by simp
  next
    assume a: "rne y = f + 1 \<and> 1 / 2 \<le> y - real_of_int f"
    then have "real_of_int (rne y) = real_of_int f + 1" by simp
    moreover have "real_of_int f + 1 \<le> 2 * y" using a r0 by linarith
    ultimately show ?thesis using a f0 by simp
  qed
qed

lemma rne_bound: "\<bar>real_of_int (rne y)\<bar> \<le> 2 * \<bar>y\<bar>"
proof (cases "0 \<le> y")
  case True
  then show ?thesis using rne_bound_nonneg [of y] by simp
next
  case False
  then have "0 \<le> - y" by simp
  then show ?thesis using rne_bound_nonneg [of "- y"] by (simp add: rne_minus)
qed

lemma round64_bound: "\<bar>round64 x\<bar> \<le> 2 * \<bar>x\<bar>"
proof (cases "x = 0")
  case True
  then show ?thesis by (simp add: round64_def)
next
  case False
  define q :: real where "q = 2 powr (of_int (max \<lfloor>log 2 \<bar>x\<bar>\<rfloor> (- 1022) - 52))"
  have q: "0 < q" by (simp add: q_def)
  have r: "round64 x = q * of_int (rne (x / q))"
    using False by (simp add: round64_def Let_def q_def)
  have "\<bar>q * of_int (rne (x / q))\<bar> = q * \<bar>real_of_int (rne (x / q))\<bar>"
    using q by (simp add: abs_mult)
  also have "\<dots> \<le> q * (2 * \<bar>x / q\<bar>)"
    by (rule mult_left_mono [OF rne_bound]) (use q in simp)
  also have "\<dots> = 2 * \<bar>x\<bar>"
    using q by simp
  finally show ?thesis by (simp only: r)
qed

lemma fadd_bound:
  assumes "\<bar>a\<bar> \<le> A" and "\<bar>b\<bar> \<le> B"
  shows "\<bar>fadd a b\<bar> \<le> 2 * (A + B)"
proof -
  have h: "\<bar>a + b\<bar> \<le> A + B" using assms by linarith
  have "\<bar>round64 (a + b)\<bar> \<le> 2 * \<bar>a + b\<bar>" by (rule round64_bound)
  also have "\<dots> \<le> 2 * (A + B)" using h by simp
  finally show ?thesis by (simp add: fadd_def)
qed

lemma fsub_bound:
  assumes "\<bar>a\<bar> \<le> A" and "\<bar>b\<bar> \<le> B"
  shows "\<bar>fsub a b\<bar> \<le> 2 * (A + B)"
proof -
  have h: "\<bar>a - b\<bar> \<le> A + B" using assms by linarith
  have "\<bar>round64 (a - b)\<bar> \<le> 2 * \<bar>a - b\<bar>" by (rule round64_bound)
  also have "\<dots> \<le> 2 * (A + B)" using h by simp
  finally show ?thesis by (simp add: fsub_def)
qed

lemma fmul_bound:
  assumes "\<bar>a\<bar> \<le> A" and "\<bar>b\<bar> \<le> B"
  shows "\<bar>fmul a b\<bar> \<le> 2 * (A * B)"
proof -
  have "\<bar>a * b\<bar> \<le> A * B"
    using assms by (simp add: abs_mult mult_mono)
  then show ?thesis
    using round64_bound [of "a * b"] by (simp add: fmul_def)
qed

lemma fdiv_bound:
  assumes "\<bar>a\<bar> \<le> A" and "1 \<le> b"
  shows "\<bar>fdiv a b\<bar> \<le> 2 * A"
proof -
  have "\<bar>a / b\<bar> \<le> \<bar>a\<bar>"
    using assms(2) by (simp add: divide_le_eq mult_le_cancel_left1)
  then show ?thesis
    using round64_bound [of "a / b"] assms(1) by (simp add: fdiv_def)
qed

lemma fpow_ok:
  assumes "\<bar>a\<bar> \<le> A" and "2 * A ^ k < 2 ^ 1024"
  shows "\<exists>r. fpow a k = Inr r \<and> \<bar>r\<bar> \<le> 2 * A ^ k"
proof -
  have "\<bar>a ^ k\<bar> \<le> A ^ k"
    using assms(1) by (simp add: power_abs power_mono)
  then have b: "\<bar>round64 (a ^ k)\<bar> \<le> 2 * A ^ k"
    using round64_bound [of "a ^ k"] by simp
  then have "\<not> 2 ^ 1024 \<le> \<bar>round64 (a ^ k)\<bar>"
    using assms(2) by simp
  then show ?thesis
    using b by (simp add: fpow_def Let_def)
qed

lemma fmul_le:
  "\<bar>a\<bar> \<le> A \<Longrightarrow> \<bar>b\<bar> \<le> B \<Longrightarrow> 2 * (A * B) \<le> C \<Longrightarrow> \<bar>fmul a b\<bar> \<le> C"
  using fmul_bound [of a A b B] by simp

lemma fadd_le:
  "\<bar>a\<bar> \<le> A \<Longrightarrow> \<bar>b\<bar> \<le> B \<Longrightarrow> 2 * (A + B) \<le> C \<Longrightarrow> \<bar>fadd a b\<bar> \<le> C"
  using fadd_bound [of a A b B] by simp

lemma fsub_le:
  "\<bar>a\<bar> \<le> A \<Longrightarrow> \<bar>b\<bar> \<le> B \<Longrightarrow> 2 * (A + B) \<le> C \<Longrightarrow> \<bar>fsub a b\<bar> \<le> C"
  using fsub_bound [of a A b B] by simp

lemma constant_le: "2 * \<bar>c\<bar> \<le> C \<Longrightarrow> \<bar>round64 c\<bar> \<le> C"
  using round64_bound [of c] by simp

lemma aux_in_range:
  assumes "\<bar>x\<bar> \<le> 180" and "\<bar>c\<bar> \<le> 200000"
  shows "\<bar>fdiv (fsub (fmul x 3600) (round64 c)) 10000\<bar> \<le> 2 ^ 23"
proof -
  have a1: "\<bar>fmul x 3600\<bar> \<le> 1296000"
    by (rule fmul_le [OF assms(1), of 3600 3600]) simp_all
  have a2: "\<bar>round64 c\<bar> \<le> 400000"
    by (rule constant_le) (use assms(2) in simp)
  have a3: "\<bar>fsub (fmul x 3600) (round64 c)\<bar> \<le> 3392000"
    by (rule fsub_le [OF a1 a2]) simp
  show ?thesis
    using fdiv_bound [OF a3, of 10000] by simp
qed

lemma wgs84_to_lv95_in_range:
  assumes "\<bar>lat\<bar> \<le> 90" and "\<bar>lon\<bar> \<le> 180"
  shows "\<exists>E N. wgs84_to_lv95 lat lon = Inr (E, N) \<and> \<bar>E\<bar> \<le> 2 ^ 130 \<and> \<bar>N\<bar> \<le> 2 ^ 130"
proof -
  define lat_aux where "lat_aux = fdiv (fsub (fmul lat 3600) (round64 169028.66)) 10000"
  define lon_aux where "lon_aux = fdiv (fsub (fmul lon 3600) (round64 26782.5)) 10000"
  have la: "\<bar>lat_aux\<bar> \<le> 2 ^ 23"
    unfolding lat_aux_def by (rule aux_in_range) (use assms in simp_all)
  have lo: "\<bar>lon_aux\<bar> \<le> 2 ^ 23"
    unfolding lon_aux_def by (rule aux_in_range) (use assms in simp_all)
  obtain lat2 where lat2: "fpow lat_aux 2 = Inr lat2" and lat2b: "\<bar>lat2\<bar> \<le> 2 ^ 70"
    using fpow_ok [OF la, of 2] by auto
  obtain lat3 where lat3: "fpow lat_aux 3 = Inr lat3" and lat3b: "\<bar>lat3\<bar> \<le> 2 ^ 70"
    using fpow_ok [OF la, of 3] by auto
  obtain lon2 where lon2: "fpow lon_aux 2 = Inr lon2" and lon2b: "\<bar>lon2\<bar> \<le> 2 ^ 70"
    using fpow_ok [OF lo, of 2] by auto
  obtain lon3 where lon3: "fpow lon_aux 3 = Inr lon3" and lon3b: "\<bar>lon3\<bar> \<le> 2 ^ 70"
    using fpow_ok [OF lo, of 3] by auto
  have k: "\<bar>round64 c\<bar> \<le> 2 ^ 23" if "\<bar>c\<bar> \<le> 4000000" for c
    by (rule constant_le) (use that in simp)
  have t1: "\<bar>fmul (round64 c) x\<bar> \<le> 2 ^ 120" if "\<bar>c\<bar> \<le> 4000000" "\<bar>x\<bar> \<le> 2 ^ 70" for c x
    by (rule fmul_le [OF k [OF that(1)] that(2)]) simp
  have t2: "\<bar>fmul (fmul (round64 c) x) y\<bar> \<le> 2 ^ 120"
    if "\<bar>c\<bar> \<le> 4000000" "\<bar>x\<bar> \<le> 2 ^ 23" "\<bar>y\<bar> \<le> 2 ^ 70" for c x y
  proof -
    have "\<bar>fmul (round64 c) x\<bar> \<le> 2 ^ 47"
      by (rule fmul_le [OF k [OF that(1)] that(2)]) simp
    then show ?thesis
      by (rule fmul_le [OF _ that(3)]) simp
  qed
  have s: "\<bar>x\<bar> \<le> 2 ^ 70" if "\<bar>x\<bar> \<le> 2 ^ 23" for x :: real
    using that by (rule order_trans) simp
  define E where "E = fsub (fsub (fsub (fadd (round64 2600072.37)
                                           (fmul (round64 211455.93) lon_aux))
                                     (fmul (fmul (round64 10938.51) lon_aux) lat_aux))
                               (fmul (fmul (round64 0.36) lon_aux) lat2))
                         (fmul (round64 44.54) lon3)"
  define N where "N = fadd (fsub (fadd (fadd (fadd (round64 1200147.07)
                                                 (fmul (round64 308807.95) lat_aux))
                                           (fmul (round64 3745.25) lon2))
                                     (fmul (round64 76.63) lat2))
                               (fmul (fmul (round64 194.56) lon2) lat_aux))
                         (fmul (round64 119.79) lat3)"
  have w: "wgs84_to_lv95 lat lon = Inr (E, N)"
    using lat2 lat3 lon2 lon3
    by (simp add: wgs84_to_lv95_def Let_def and_then_def lat_aux_def lon_aux_def E_def N_def)
  have c0: "\<bar>round64 2600072.37\<bar> \<le> 2 ^ 120" "\<bar>round64 1200147.07\<bar> \<le> 2 ^ 120"
    by (rule constant_le, simp)+
  have e1: "\<bar>fadd (round64 2600072.37) (fmul (round64 211455.93) lon_aux)\<bar> \<le> 2 ^ 122"
    by (rule fadd_le [OF c0(1) t1 [OF _ s [OF lo]]]) simp_all
  have e2: "\<bar>fsub (fadd (round64 2600072.37) (fmul (round64 211455.93) lon_aux))
              (fmul (fmul (round64 10938.51) lon_aux) lat_aux)\<bar> \<le> 2 ^ 124"
    by (rule fsub_le [OF e1 t2 [OF _ lo s [OF la]]]) simp_all
  have e3: "\<bar>fsub (fsub (fadd (round64 2600072.37) (fmul (round64 211455.93) lon_aux))
                    (fmul (fmul (round64 10938.51) lon_aux) lat_aux))
              (fmul (fmul (round64 0.36) lon_aux) lat2)\<bar> \<le> 2 ^ 126"
    by (rule fsub_le [OF e2 t2 [OF _ lo lat2b]]) simp_all
  have Eb: "\<bar>E\<bar> \<le> 2 ^ 130"
    unfolding E_def by (rule fsub_le [OF e3 t1 [OF _ lon3b]]) simp_all
  have n1: "\<bar>fadd (round64 1200147.07) (fmul (round64 308807.95) lat_aux)\<bar> \<le> 2 ^ 122"
    by (rule fadd_le [OF c0(2) t1 [OF _ s [OF la]]]) simp_all
  have n2: "\<bar>fadd (fadd (round64 1200147.07) (fmul (round64 308807.95) lat_aux))
              (fmul (round64 3745.25) lon2)\<bar> \<le> 2 ^ 124"
    by (rule fadd_le [OF n1 t1 [OF _ lon2b]]) simp_all
  have n3: "\<bar>fadd (fadd (fadd (round64 1200147.07) (fmul (round64 308807.95) lat_aux))
                    (fmul (round64 3745.25) lon2))
              (fmul (round64 76.63) lat2)\<bar> \<le> 2 ^ 126"
    by (rule fadd_le [OF n2 t1 [OF _ lat2b]]) simp_all
  have n4: "\<bar>fsub (fadd (fadd (fadd (round64 1200147.07) (fmul (round64 308807.95) lat_aux))
                          (fmul (round64 3745.25) lon2))
                    (fmul (round64 76.63) lat2))
              (fmul (fmul (round64 194.56) lon2) lat_aux)\<bar> \<le> 2 ^ 128"
  proof -
    have "\<bar>fmul (round64 194.56) lon2\<bar> \<le> 2 ^ 94"
      by (rule fmul_le [OF k lon2b]) simp_all
    then have "\<bar>fmul (fmul (round64 194.56) lon2) lat_aux\<bar> \<le> 2 ^ 120"
      by (rule fmul_le [OF _ la]) simp
    then show ?thesis
      by (rule fsub_le [OF n3]) simp
  qed
  have Nb: "\<bar>N\<bar> \<le> 2 ^ 130"
    unfolding N_def by (rule fadd_le [OF n4 t1 [OF _ lat3b]]) simp_all
  show ?thesis
    using w Eb Nb by blast
qed

lemma calculate_distance_ok:
  assumes "\<bar>e1\<bar> \<le> 2 ^ 130" and "\<bar>n1\<bar> \<le> 2 ^ 130" and "\<bar>e2\<bar> \<le> 2 ^ 130" and "\<bar>n2\<bar> \<le> 2 ^ 130"
  shows "\<exists>d. calculate_distance e1 n1 e2 n2 = Inr d"
proof -
  have de: "\<bar>fsub e2 e1\<bar> \<le> 2 ^ 132"
    by (rule fsub_le [OF assms(3) assms(1)]) simp
  have dn: "\<bar>fsub n2 n1\<bar> \<le> 2 ^ 132"
    by (rule fsub_le [OF assms(4) assms(2)]) simp
  obtain a where a: "fpow (fsub e2 e1) 2 = Inr a"
    using fpow_ok [OF de, of 2] by auto
  obtain b where b: "fpow (fsub n2 n1) 2 = Inr b"
    using fpow_ok [OF dn, of 2] by auto
  show ?thesis
    by (simp add: calculate_distance_def and_then_def a b)
qed

section \<open>Point extraction\<close>

lemma kroki_loop_acc:
  "kroki_loop pf es acc =
     (case kroki_loop pf es [] of Inl x \<Rightarrow> Inl x | Inr ps \<Rightarrow> Inr (acc @ ps))"
proof (induction es arbitrary: acc)
  case Nil
  then show ?case by simp
next
  case (Cons e es)
  show ?case
  proof (cases "get e ''lat'' = None \<or> get e ''lon'' = None")
    case True
    then show ?thesis using Cons.IH [of acc] by simp
  next
    case False
    show ?thesis
      using False Cons.IH [of "acc @ [p]" for p] Cons.IH [of "[p]" for p]
      by (auto simp: Let_def split: sum.splits)
  qed
qed

lemma kroki_loop_skips:
  "kroki_loop pf es [] = extract_each pf (filter has_coords es)"
proof (induction es)
  case Nil
  then show ?case by simp
next
  case (Cons e es)
  show ?case
  proof (cases "has_coords e")
    case False
    then show ?thesis using Cons.IH by (auto simp: has_coords_def)
  next
    case True
    then have nn: "\<not> (get e ''lat'' = None \<or> get e ''lon'' = None)"
      by (simp add: has_coords_def)
    show ?thesis
      using True nn Cons.IH kroki_loop_acc [of pf es "[p]" for p]
      by (auto simp: Let_def extract_elem_def split: sum.splits)
  qed
qed

lemma extract_each_length:
  "extract_each pf es = Inr ps \<Longrightarrow> length ps = length es"
  by (induction es arbitrary: ps) (auto split: sum.splits)

lemma extract_each_fails:
  "e \<in> set es \<Longrightarrow> \<not> has_coords e \<Longrightarrow> isl (extract_each pf es)"
proof (induction es)
  case Nil
  then show ?case by simp
next
  case (Cons a es)
  show ?case
  proof (cases "a = e")
    case True
    then have "isl (extract_elem pf a)"
      using Cons.prems(2)
      by (auto simp: has_coords_def extract_elem_def float_of_def split: sum.splits option.splits)
    then show ?thesis by (auto split: sum.splits)
  next
    case False
    then have "isl (extract_each pf es)" using Cons by simp
    then show ?thesis by (auto split: sum.splits)
  qed
qed

lemma parse_gpx_precedence:
  "parse_gpx pf doc
     = precedence (map (\<lambda>t. extract_each pf (findall t doc)) [trkpt, rtept, wpt])"
  using extract_each_length [of pf "findall trkpt doc"]
    extract_each_length [of pf "findall rtept doc"]
    extract_each_length [of pf "findall wpt doc"]
  by (auto simp: parse_gpx_def py_or_def split: sum.splits)

lemma kroki_parse_gpx_precedence:
  "kroki_parse_gpx pf doc
     = precedence (map (\<lambda>t. kroki_loop pf (findall t doc) []) [trkpt, rtept, wpt])"
  by (auto simp: kroki_parse_gpx_def split: sum.splits)

lemma findall_doc_missing_lat:
  "findall trkpt doc_missing_lat =
     [Element trkpt [(''lon'', ''7.5'')] None [],
      Element trkpt [(''lat'', ''46.5''), (''lon'', ''7.5'')] None
        [Element ele_tag [] (Some ''1000.25'') []]]"
  by (simp add: findall_def doc_missing_lat_def trkpt_def gpx_ns_def ele_tag_def)

lemma findall_doc_wpt_and_trk:
  "findall trkpt doc_wpt_and_trk =
     [Element trkpt [(''lat'', ''46.5''), (''lon'', ''7.5'')] None
        [Element ele_tag [] (Some ''1000.25'') []]]"
  "findall rtept doc_wpt_and_trk = []"
  "findall wpt doc_wpt_and_trk = [Element wpt [(''lat'', ''47''), (''lon'', ''8'')] None []]"
  by (simp_all add: findall_def doc_wpt_and_trk_def trkpt_def rtept_def wpt_def gpx_ns_def
      ele_tag_def)

lemma descendants_doc_wpt_and_trk:
  "\<forall>e \<in> set (descendants doc_wpt_and_trk). tag e \<in> {trkpt, rtept, wpt} \<longrightarrow> has_coords e"
  by (simp add: doc_wpt_and_trk_def has_coords_def get_def trkpt_def rtept_def wpt_def
      gpx_ns_def ele_tag_def)

lemma extract_elem_trkpt:
  "extract_elem decimal_float
     (Element trkpt [(''lat'', ''46.5''), (''lon'', ''7.5'')] None
        [Element ele_tag [] (Some ''1000.25'') []])
   = Inr (93 / 2, 15 / 2, Some (4001 / 4))"
  by (simp add: extract_elem_def get_def float_of_def read_ele_def find_child_def
      decimal_float_46_5 decimal_float_7_5 decimal_float_1000_25)

text \<open>
  C3. For every document and both extractors, the categories are tried in the order track
  points, route points, way-points; the result is the first category that yields a point,
  and no point of a later category is added to it.
\<close>

theorem extraction_precedence:
  "parse_gpx pf doc
     = precedence (map (\<lambda>t. extract_each pf (findall t doc)) [trkpt, rtept, wpt])
   \<and> kroki_parse_gpx pf doc
     = precedence (map (\<lambda>t. kroki_loop pf (findall t doc) []) [trkpt, rtept, wpt])"
  by (simp only: parse_gpx_precedence kroki_parse_gpx_precedence)

theorem extraction_precedence_witness:
  "parse_gpx decimal_float doc_wpt_and_trk = Inr [(93 / 2, 15 / 2, Some (4001 / 4))]
   \<and> kroki_parse_gpx decimal_float doc_wpt_and_trk = Inr [(93 / 2, 15 / 2, Some (4001 / 4))]"
  using extraction_precedence [of decimal_float doc_wpt_and_trk]
  by (simp add: findall_doc_wpt_and_trk kroki_loop_skips has_coords_def get_def
      extract_elem_trkpt)

lemma kroki_loop_filter:
  "kroki_loop pf es acc
     = (case extract_each pf (filter has_coords es) of
          Inl x \<Rightarrow> Inl x
        | Inr ps \<Rightarrow> Inr (acc @ ps))"
  using kroki_loop_acc [of pf es acc] by (simp add: kroki_loop_skips)

lemma kroki_parse_gpx_first_category:
  assumes "\<exists>a \<in> set (first_category doc). has_coords a"
  shows "kroki_parse_gpx pf doc = extract_each pf (filter has_coords (first_category doc))"
proof -
  let ?c = "\<lambda>t. extract_each pf (filter has_coords (findall t doc))"
  have k: "kroki_parse_gpx pf doc = precedence (map ?c [trkpt, rtept, wpt])"
    by (simp add: kroki_parse_gpx_precedence kroki_loop_skips)
  have ne: "ps \<noteq> []" if "?c t = Inr ps" "\<exists>a \<in> set (findall t doc). has_coords a" for t ps
  proof -
    have "filter has_coords (findall t doc) \<noteq> []"
      using that(2) by (auto simp: filter_empty_conv)
    then show ?thesis
      using extract_each_length [OF that(1)] by auto
  qed
  have em: "?c t = Inr []" if "findall t doc = []" for t
    using that by simp
  show ?thesis
  proof (cases "findall trkpt doc = []")
    case False
    then have f: "first_category doc = findall trkpt doc"
      by (simp add: first_category_def py_or_def)
    show ?thesis
      using ne [of trkpt] assms by (cases "?c trkpt") (simp_all add: k f)
  next
    case t: True
    show ?thesis
    proof (cases "findall rtept doc = []")
      case False
      then have f: "first_category doc = findall rtept doc"
        using t by (simp add: first_category_def py_or_def)
      show ?thesis
        using ne [of rtept] assms em [OF t] by (cases "?c rtept") (simp_all add: k f)
    next
      case True
      then have f: "first_category doc = findall wpt doc"
        using t by (simp add: first_category_def py_or_def)
      show ?thesis
        using em [OF t] em [OF True] by (cases "?c wpt") (simp_all add: k f)
    qed
  qed
qed

lemma extract_each_append:
  "extract_each pf (pre @ es)
     = (case extract_each pf pre of
          Inl x \<Rightarrow> Inl x
        | Inr ps \<Rightarrow> (case extract_each pf es of Inl x \<Rightarrow> Inl x | Inr qs \<Rightarrow> Inr (ps @ qs)))"
  by (induction pre) (auto split: sum.splits)

lemma extract_elem_missing:
  assumes "\<not> has_coords e" and "\<forall>s. get e ''lat'' = Some s \<longrightarrow> pf s \<noteq> None"
  shows "extract_elem pf e = Inl TypeError"
  using assms
  by (auto simp: has_coords_def extract_elem_def float_of_def split: option.splits)

lemma parse_gpx_first_category: "parse_gpx pf doc = extract_each pf (first_category doc)"
  by (simp add: parse_gpx_def first_category_def)

lemma main_aborts:
  "parse_gpx pf doc = Inl exc \<Longrightarrow>
     main pf http tr ginv fs gpx_file doc output_file use = failed gpx_file exc [] []"
  by (simp add: main_def core_def)

lemma findall_doc_track_without_lat:
  "findall trkpt doc_track_without_lat = [Element trkpt [(''lon'', ''7.5'')] None []]"
  "findall rtept doc_track_without_lat = []"
  "findall wpt doc_track_without_lat
     = [Element wpt [(''lat'', ''47''), (''lon'', ''8'')] None []]"
  by (simp_all add: findall_def doc_track_without_lat_def trkpt_def rtept_def wpt_def gpx_ns_def)

text \<open>
  C7, as stated, fails in gpx2kroki. It reads a document whose first track point has no
  \<open>lat\<close> without any failure, and returns the other point. And for a document with a
  way-point and a track whose only point has no \<open>lat\<close> it leaves the track, again without
  a failure, and returns the way-point.
\<close>

theorem missing_lat_is_skipped:
  "kroki_parse_gpx decimal_float doc_missing_lat = Inr [(93 / 2, 15 / 2, Some (4001 / 4))]
   \<and> kroki_parse_gpx decimal_float doc_track_without_lat = Inr [(47, 8, None)]"
  by (simp add: kroki_parse_gpx_def findall_doc_missing_lat findall_doc_track_without_lat
      get_def Let_def float_of_def read_ele_def find_child_def decimal_float_46_5
      decimal_float_7_5 decimal_float_1000_25 decimal_float_47 decimal_float_8)

text \<open>
  C7, amended. In gpx2kroki a point element without \<open>lat\<close> or \<open>lon\<close> is passed over
  without a failure, and the loop goes on with the elements after it. When the first
  category that has an element holds one with both attributes, the result is what the
  elements of that category with both attributes give: the category is not left on account
  of its other members, and no element with both attributes is passed over. In gpx2lv95
  nothing is passed over: an element without \<open>lat\<close> or \<open>lon\<close> in the category that is read
  makes \<^verbatim>\<open>parse_gpx\<close> fail, and the run ends with status 1 and without a report; the
  exception is \<^verbatim>\<open>TypeError\<close> when the elements before it are read and its own \<open>lat\<close>, if
  present, is a number. What gpx2kroki does with a category none of whose elements has
  both attributes is not part of this statement.
\<close>

theorem missing_coordinates:
  "(\<not> has_coords e \<longrightarrow> kroki_loop pf (es1 @ e # es2) acc = kroki_loop pf (es1 @ es2) acc)
   \<and> ((\<exists>a \<in> set (first_category doc). has_coords a) \<longrightarrow>
        kroki_parse_gpx pf doc = extract_each pf (filter has_coords (first_category doc)))
   \<and> (e \<in> set (first_category doc) \<and> \<not> has_coords e \<longrightarrow>
        isl (parse_gpx pf doc)
        \<and> exit_status (main pf http tr ginv fs gpx_file doc output_file use) = 1
        \<and> printed (main pf http tr ginv fs gpx_file doc output_file use) = []
        \<and> written (main pf http tr ginv fs gpx_file doc output_file use) = None)
   \<and> (first_category doc = pre @ e # post \<and> extract_each pf pre = Inr ps \<and> \<not> has_coords e
        \<and> (\<forall>s. get e ''lat'' = Some s \<longrightarrow> pf s \<noteq> None) \<longrightarrow>
        parse_gpx pf doc = Inl TypeError
        \<and> main pf http tr ginv fs gpx_file doc output_file use
            = \<lparr>exit_status = 1, printed = [], written = None,
               logged = [Error ''Unexpected error: TypeError''], requested = []\<rparr>)"
proof (intro conjI impI)
  assume "\<not> has_coords e"
  then show "kroki_loop pf (es1 @ e # es2) acc = kroki_loop pf (es1 @ es2) acc"
    by (simp add: kroki_loop_filter)
next
  assume "\<exists>a \<in> set (first_category doc). has_coords a"
  then show "kroki_parse_gpx pf doc = extract_each pf (filter has_coords (first_category doc))"
    by (rule kroki_parse_gpx_first_category)
next
  assume a: "e \<in> set (first_category doc) \<and> \<not> has_coords e"
  then have i: "isl (parse_gpx pf doc)"
    using extract_each_fails [of e "first_category doc" pf]
    by (simp add: parse_gpx_first_category)
  then obtain exc where x: "parse_gpx pf doc = Inl exc"
    by (cases "parse_gpx pf doc") auto
  show "isl (parse_gpx pf doc)" by (rule i)
  show "exit_status (main pf http tr ginv fs gpx_file doc output_file use) = 1"
    by (simp add: main_aborts [OF x] failed_def)
  show "printed (main pf http tr ginv fs gpx_file doc output_file use) = []"
    by (simp add: main_aborts [OF x] failed_def)
  show "written (main pf http tr ginv fs gpx_file doc output_file use) = None"
    by (simp add: main_aborts [OF x] failed_def)
next
  assume a: "first_category doc = pre @ e # post \<and> extract_each pf pre = Inr ps
      \<and> \<not> has_coords e \<and> (\<forall>s. get e ''lat'' = Some s \<longrightarrow> pf s \<noteq> None)"
  then have m: "extract_elem pf e = Inl TypeError"
    using extract_elem_missing [of e pf] by simp
  show x: "parse_gpx pf doc = Inl TypeError"
    using a m by (simp add: parse_gpx_first_category extract_each_append)
  show "main pf http tr ginv fs gpx_file doc output_file use
      = \<lparr>exit_status = 1, printed = [], written = None,
         logged = [Error ''Unexpected error: TypeError''], requested = []\<rparr>"
    by (simp add: main_aborts [OF x] failed_def str_error_def)
qed

theorem missing_coordinates_witness:
  "kroki_loop decimal_float
     [Element trkpt [(''lon'', ''7.5'')] None [],
      Element trkpt [(''lat'', ''46.5''), (''lon'', ''7.5'')] None
        [Element ele_tag [] (Some ''1000.25'') []]] []
     = Inr [(93 / 2, 15 / 2, Some (4001 / 4))]
   \<and> kroki_parse_gpx decimal_float doc_missing_lat = Inr [(93 / 2, 15 / 2, Some (4001 / 4))]
   \<and> parse_gpx decimal_float doc_missing_lat = Inl TypeError
   \<and> main decimal_float unreachable origin_transform flat_geod writable ''route.gpx''
        doc_missing_lat None True
       = \<lparr>exit_status = 1, printed = [], written = None,
          logged = [Error ''Unexpected error: TypeError''], requested = []\<rparr>"
proof -
  let ?e = "Element trkpt [(''lon'', ''7.5'')] None []"
  let ?c = "Element trkpt [(''lat'', ''46.5''), (''lon'', ''7.5'')] None
      [Element ele_tag [] (Some ''1000.25'') []]"
  have f: "first_category doc_missing_lat = [] @ ?e # [?c]"
    by (simp add: first_category_def py_or_def findall_doc_missing_lat)
  have h: "\<not> has_coords ?e" "has_coords ?c"
    by (simp_all add: has_coords_def get_def)
  have l: "\<forall>s. get ?e ''lat'' = Some s \<longrightarrow> decimal_float s \<noteq> None"
    by (simp add: get_def)
  have k: "kroki_loop decimal_float ([] @ [?c]) [] = Inr [(93 / 2, 15 / 2, Some (4001 / 4))]"
    using h(2) by (simp add: kroki_loop_skips extract_elem_trkpt)
  show ?thesis
    using missing_coordinates [where e = ?e and ?es1.0 = "[]" and ?es2.0 = "[?c]"
        and acc = "[]" and pf = decimal_float and doc = doc_missing_lat and pre = "[]"
        and post = "[?c]" and ps = "[]" and http = unreachable and tr = origin_transform
        and ginv = flat_geod and fs = writable and gpx_file = "''route.gpx''"
        and output_file = None and use = True] f h l k
    by (simp add: extract_elem_trkpt)
qed

text \<open>
  C10. For every document in which each track point, route point and way-point element
  carries both \<open>lat\<close> and \<open>lon\<close>, the two extractors give the same result: the same triples
  in the same order, or the same exception.
\<close>

theorem extractors_agree:
  assumes "\<forall>e \<in> set (descendants doc). tag e \<in> {trkpt, rtept, wpt} \<longrightarrow> has_coords e"
  shows "kroki_parse_gpx pf doc = parse_gpx pf doc"
proof -
  have "filter has_coords (findall t doc) = findall t doc" if "t \<in> {trkpt, rtept, wpt}" for t
    using assms that by (auto simp: findall_def intro!: filter_cong)
  then show ?thesis
    by (simp add: kroki_parse_gpx_precedence kroki_loop_skips parse_gpx_precedence)
qed

theorem extractors_agree_witness:
  "kroki_parse_gpx decimal_float doc_wpt_and_trk = parse_gpx decimal_float doc_wpt_and_trk
   \<and> parse_gpx decimal_float doc_wpt_and_trk = Inr [(93 / 2, 15 / 2, Some (4001 / 4))]"
  using extractors_agree [OF descendants_doc_wpt_and_trk, of decimal_float]
  by (simp add: parse_gpx_def py_or_def findall_doc_wpt_and_trk extract_elem_trkpt)

section \<open>The profile of gpx2lv95\<close>

lemma enumerate_from_Cons:
  "enumerate_from k (x # xs) = (k, x) # enumerate_from (Suc k) xs"
  by (simp add: enumerate_from_def upt_conv_Cons del: upt_Suc)

lemma enumerate_from_Nil: "enumerate_from k [] = []"
  by (simp add: enumerate_from_def)

lemma build_loop_spec:
  assumes "points = pre @ rest"
    and "profile = map (expected_entry pf http tr ginv use points) [0..<length pre]"
    and "pre = [] \<longrightarrow> dst = 0 \<and> azim = 0 \<and> d_ele = 0"
  shows "\<exists>d a de. build_loop pf http tr ginv use points (enumerate_from (length pre) rest)
            (profile, dst, azim, d_ele, logs, sent)
          = Inr (map (expected_entry pf http tr ginv use points) [0..<length points], d, a, de,
                 logs @ concat (map (\<lambda>p. fst (snd (resolve pf http tr use p))) rest),
                 sent @ concat (map (\<lambda>p. snd (snd (resolve pf http tr use p))) rest))"
  using assms
proof (induction rest arbitrary: pre profile dst azim d_ele logs sent)
  case Nil
  then show ?case by (simp add: enumerate_from_Nil)
next
  case (Cons p rest)
  obtain lat lon ele where p: "p = (lat, lon, ele)" by (cases p)
  obtain e n where en: "tr lon lat = (e, n)" by (cases "tr lon lat")
  obtain r w s where rw: "fetch_elevation pf http ele e n use = (r, w, s)"
    by (cases "fetch_elevation pf http ele e n use")
  let ?k = "length pre"
  let ?q = "points ! (?k - 1)"
  have pk: "points ! ?k = p" using Cons.prems(1) by simp
  have res: "resolve pf http tr use (lat, lon, ele) = (r, w, s)"
    by (simp add: resolve_def en rw)
  define nd where "nd = (if ?k = 0 then dst
    else snd (snd (ginv (fst (snd ?q)) (fst ?q) lon lat)))"
  define na where "na = (if ?k = 0 then azim else fst (ginv (fst (snd ?q)) (fst ?q) lon lat))"
  define nde where "nde = (if ?k = 0 then d_ele else fsub r (fst (resolve pf http tr use ?q)))"
  let ?new = "\<lparr>p_e = e, p_n = n, p_ele = Some r, p_dist = nd, p_azimuth = na,
      p_delta_ele = nde\<rparr>"
  have step: "(if ?k > 0 then from_prev ginv points profile ?k lat lon r
               else Inr (dst, azim, d_ele)) = Inr (nd, na, nde)"
  proof (cases "?k = 0")
    case True
    then show ?thesis by (simp add: nd_def na_def nde_def)
  next
    case False
    then have lt: "?k - 1 < length points" using Cons.prems(1) by simp
    have ne: "profile \<noteq> []" using False Cons.prems(2) by simp
    have "last profile = expected_entry pf http tr ginv use points (?k - 1)"
      using False Cons.prems(2) by (simp add: last_map)
    then have pe: "p_ele (last profile) = Some (fst (resolve pf http tr use ?q))"
      by (simp add: expected_entry_def Let_def)
    show ?thesis
      using False lt ne pe
      by (simp add: from_prev_def item_def last_item_def fsub_opt_def nd_def na_def nde_def
          split: prod.splits)
  qed
  have entry: "?new = expected_entry pf http tr ginv use points ?k"
    using Cons.prems(3) pk
    by (auto simp: expected_entry_def Let_def p en res nd_def na_def nde_def)
  have prof: "profile @ [?new]
      = map (expected_entry pf http tr ginv use points) [0..<length (pre @ [p])]"
    using Cons.prems(2) entry by simp
  have pts: "points = (pre @ [p]) @ rest" using Cons.prems(1) by simp
  from Cons.IH [OF pts prof, of nd na nde "logs @ w" "sent @ s"]
  obtain d a de where
    "build_loop pf http tr ginv use points (enumerate_from (length (pre @ [p])) rest)
       (profile @ [?new], nd, na, nde, logs @ w, sent @ s)
     = Inr (map (expected_entry pf http tr ginv use points) [0..<length points], d, a, de,
            (logs @ w) @ concat (map (\<lambda>p. fst (snd (resolve pf http tr use p))) rest),
            (sent @ s) @ concat (map (\<lambda>p. snd (snd (resolve pf http tr use p))) rest))"
    by auto
  then show ?case
    using step by (simp add: enumerate_from_Cons p en rw res)
qed

lemma build_profile_spec:
  "build_profile pf http tr ginv points use
     = Inr (map (expected_entry pf http tr ginv use points) [0..<length points],
            concat (map (\<lambda>p. fst (snd (resolve pf http tr use p))) points),
            concat (map (\<lambda>p. snd (snd (resolve pf http tr use p))) points))"
  using build_loop_spec [of points "[]" points "[]" pf http tr ginv use 0 0 0 "[]" "[]"]
  by (auto simp: build_profile_def)

lemma str_nat_digit: "n < 10 \<Longrightarrow> str_nat n = [digit_char n]"
  by (simp add: str_nat.simps)

lemma rne_zero: "rne 0 = 0"
  by (simp add: rne_def)

lemma fmt2_zero: "fmt2 0 = ''0.00''"
  by (simp add: fmt2_def rne_zero str_nat_digit digit_char_def)

lemma py_sum_Nil: "py_sum [] = 0"
  by (simp add: py_sum_def)

section \<open>The two passes of gpx2kroki\<close>

lemma collect_ok:
  "\<forall>r \<in> set rs. \<exists>v. r = Inr v \<Longrightarrow> \<exists>vs. collect rs = Inr vs"
  by (induction rs) auto

lemma swiss_loop_step:
  assumes "wgs84_to_lv95 lat lon = Inr (e, n)"
  shows "\<exists>el msgs asked. swiss_loop pf http fetch (enumerate_from k ((lat, lon, ele) # rest))
             (sp, err, sent)
           = swiss_loop pf http fetch (enumerate_from (Suc k) rest)
               (sp @ [(e, n, el)], err @ msgs, sent @ asked)
         \<and> (\<not> (ele = None \<and> fetch) \<longrightarrow> el = ele \<and> msgs = [] \<and> asked = [])"
proof -
  obtain r w a where rw: "fetch_elevation_swisstopo pf http e n = (r, w, a)"
    by (cases "fetch_elevation_swisstopo pf http e n")
  define el where "el = (if ele = None \<and> fetch then r else ele)"
  define msgs where "msgs = (if ele = None \<and> fetch
      then w @ (case r of Some v \<Rightarrow> [''  Point '' @ str_nat (k + 1) @ '': Elevation fetched: ''
                                          @ fmt2 v @ '' m''] | None \<Rightarrow> [])
      else [])"
  define asked where "asked = (if ele = None \<and> fetch then a else [])"
  have "swiss_loop pf http fetch (enumerate_from k ((lat, lon, ele) # rest)) (sp, err, sent)
      = swiss_loop pf http fetch (enumerate_from (Suc k) rest)
          (sp @ [(e, n, el)], err @ msgs, sent @ asked)"
    by (simp add: enumerate_from_Cons assms rw el_def msgs_def asked_def)
  moreover have "\<not> (ele = None \<and> fetch) \<longrightarrow> el = ele \<and> msgs = [] \<and> asked = []"
    by (simp add: el_def msgs_def asked_def)
  ultimately show ?thesis by blast
qed

lemma swiss_loop_stop:
  assumes "wgs84_to_lv95 lat lon = Inl x"
  shows "swiss_loop pf http fetch (enumerate_from k ((lat, lon, ele) # rest)) (sp, err, sent)
           = ((sp, err, sent), Some x)"
  by (simp add: enumerate_from_Cons assms)

lemma swiss_loop_shape:
  "\<exists>sp1 err1 sent1 x. swiss_loop pf http fetch (enumerate_from k rest) (sp, err, sent)
       = ((sp @ sp1, err @ err1, sent @ sent1), x)
     \<and> (x = None \<longrightarrow> length sp1 = length rest)"
proof (induction rest arbitrary: k sp err sent)
  case Nil
  then show ?case by (simp add: enumerate_from_Nil)
next
  case (Cons p rest)
  obtain lat lon ele where p: "p = (lat, lon, ele)" by (cases p)
  show ?case
  proof (cases "wgs84_to_lv95 lat lon")
    case (Inl x)
    then show ?thesis
      by (simp add: p swiss_loop_stop)
  next
    case (Inr en)
    obtain e n where en: "en = (e, n)" by (cases en)
    from swiss_loop_step [of lat lon e n pf http fetch k ele rest sp err sent] Inr en
    obtain el msgs asked where
      st: "swiss_loop pf http fetch (enumerate_from k ((lat, lon, ele) # rest)) (sp, err, sent)
           = swiss_loop pf http fetch (enumerate_from (Suc k) rest)
               (sp @ [(e, n, el)], err @ msgs, sent @ asked)"
      by auto
    from Cons.IH [of "Suc k" "sp @ [(e, n, el)]" "err @ msgs" "sent @ asked"]
    obtain sp1 err1 sent1 x where
      "swiss_loop pf http fetch (enumerate_from (Suc k) rest)
          (sp @ [(e, n, el)], err @ msgs, sent @ asked)
        = (((sp @ [(e, n, el)]) @ sp1, (err @ msgs) @ err1, (sent @ asked) @ sent1), x)"
      and "x = None \<longrightarrow> length sp1 = length rest"
      by blast
    then have "swiss_loop pf http fetch (enumerate_from k (p # rest)) (sp, err, sent)
        = ((sp @ ((e, n, el) # sp1), err @ (msgs @ err1), sent @ (asked @ sent1)), x)
      \<and> (x = None \<longrightarrow> length ((e, n, el) # sp1) = length (p # rest))"
      by (simp add: p st)
    then show ?thesis by blast
  qed
qed

lemma swiss_loop_geometry:
  assumes "map coords sp = map coords sp'"
  shows "snd (swiss_loop pf http fetch (enumerate_from k rest) (sp, err, sent))
           = snd (swiss_loop pf http' fetch (enumerate_from k rest) (sp', err', sent'))
       \<and> map coords (fst (fst (swiss_loop pf http fetch (enumerate_from k rest) (sp, err, sent))))
           = map coords
               (fst (fst (swiss_loop pf http' fetch (enumerate_from k rest) (sp', err', sent'))))"
  using assms
proof (induction rest arbitrary: k sp sp' err err' sent sent')
  case Nil
  then show ?case by (simp add: enumerate_from_Nil)
next
  case (Cons p rest)
  obtain lat lon ele where p: "p = (lat, lon, ele)" by (cases p)
  show ?case
  proof (cases "wgs84_to_lv95 lat lon")
    case (Inl x)
    then show ?thesis
      using Cons.prems by (simp add: p swiss_loop_stop)
  next
    case (Inr en)
    obtain e n where en: "en = (e, n)" by (cases en)
    from swiss_loop_step [of lat lon e n pf http fetch k ele rest sp err sent] Inr en
    obtain el msgs asked where
      st: "swiss_loop pf http fetch (enumerate_from k ((lat, lon, ele) # rest)) (sp, err, sent)
           = swiss_loop pf http fetch (enumerate_from (Suc k) rest)
               (sp @ [(e, n, el)], err @ msgs, sent @ asked)"
      by auto
    from swiss_loop_step [of lat lon e n pf http' fetch k ele rest sp' err' sent'] Inr en
    obtain el' msgs' asked' where
      st': "swiss_loop pf http' fetch (enumerate_from k ((lat, lon, ele) # rest)) (sp', err', sent')
           = swiss_loop pf http' fetch (enumerate_from (Suc k) rest)
               (sp' @ [(e, n, el')], err' @ msgs', sent' @ asked')"
      by auto
    have c: "coords (e, n, el) = coords (e, n, el')"
      by (simp add: coords_def)
    have "map coords (sp @ [(e, n, el)]) = map coords (sp' @ [(e, n, el')])"
      using Cons.prems c by simp
    from Cons.IH [OF this] show ?thesis
      by (simp add: p st st')
  qed
qed

lemma swiss_loop_in_range:
  assumes "list_all in_range rest"
  shows "\<exists>sp1 err1 sent1. swiss_loop pf http fetch (enumerate_from k rest) (sp, err, sent)
       = ((sp @ sp1, err @ err1, sent @ sent1), None)
     \<and> length sp1 = length rest \<and> list_all moderate sp1"
  using assms
proof (induction rest arbitrary: k sp err sent)
  case Nil
  then show ?case by (simp add: enumerate_from_Nil)
next
  case (Cons p rest)
  obtain lat lon ele where p: "p = (lat, lon, ele)" by (cases p)
  have "\<bar>lat\<bar> \<le> 90" "\<bar>lon\<bar> \<le> 180"
    using Cons.prems by (simp_all add: p in_range_def)
  then obtain e n where en: "wgs84_to_lv95 lat lon = Inr (e, n)"
    and b: "\<bar>e\<bar> \<le> 2 ^ 130" "\<bar>n\<bar> \<le> 2 ^ 130"
    using wgs84_to_lv95_in_range [of lat lon] by auto
  from swiss_loop_step [OF en, of pf http fetch k ele rest sp err sent]
  obtain el msgs asked where
    st: "swiss_loop pf http fetch (enumerate_from k ((lat, lon, ele) # rest)) (sp, err, sent)
         = swiss_loop pf http fetch (enumerate_from (Suc k) rest)
             (sp @ [(e, n, el)], err @ msgs, sent @ asked)"
    by auto
  have r: "list_all in_range rest" using Cons.prems by simp
  from Cons.IH [OF r, of "Suc k" "sp @ [(e, n, el)]" "err @ msgs" "sent @ asked"]
  obtain sp1 err1 sent1 where
    "swiss_loop pf http fetch (enumerate_from (Suc k) rest)
        (sp @ [(e, n, el)], err @ msgs, sent @ asked)
      = (((sp @ [(e, n, el)]) @ sp1, (err @ msgs) @ err1, (sent @ asked) @ sent1), None)"
    and "length sp1 = length rest" and "list_all moderate sp1"
    by blast
  then have "swiss_loop pf http fetch (enumerate_from k (p # rest)) (sp, err, sent)
      = ((sp @ ((e, n, el) # sp1), err @ (msgs @ err1), sent @ (asked @ sent1)), None)
    \<and> length ((e, n, el) # sp1) = length (p # rest) \<and> list_all moderate ((e, n, el) # sp1)"
    using b by (simp add: p st moderate_def)
  then show ?case by blast
qed

lemma row_values_first:
  "\<exists>s. row_values sp 1 p = Inr (0, s, 0, 0)"
  by (cases p) (simp add: row_values_def)

lemma row_values_later:
  assumes "sp = pre @ p # rest" and "pre \<noteq> []"
  shows "row_values sp (Suc (length pre)) p
     = (case segment sp (length pre) of
          Inl x \<Rightarrow> Inl x
        | Inr d \<Rightarrow> Inr (projr (row_values sp (Suc (length pre)) p)))"
proof -
  obtain e n ele where p: "p = (e, n, ele)" by (cases p)
  obtain pe pn pele where q: "sp ! (length pre - Suc 0) = (pe, pn, pele)"
    by (cases "sp ! (length pre - Suc 0)")
  have i: "Suc (length pre) - 2 = length pre - Suc 0" by simp
  have lt: "length pre - Suc 0 < length sp" using assms by simp
  have k: "sp ! length pre = p" using assms(1) by simp
  have ne: "length pre \<noteq> 0" using assms(2) by simp
  have s: "segment sp (length pre) = calculate_distance pe pn e n"
    by (simp add: segment_def q k p)
  show ?thesis
  proof (cases "calculate_distance pe pn e n")
    case (Inl x)
    then show ?thesis
      using ne lt by (simp add: row_values_def p item_def i q s)
  next
    case (Inr d)
    then have "\<exists>v. row_values sp (Suc (length pre)) p = Inr v"
      using ne lt
      by (auto simp: row_values_def p item_def i q Let_def split: option.splits)
    then show ?thesis
      using Inr by (auto simp: s)
  qed
qed

lemma rows_loop_spec:
  assumes "sp = pre @ rest"
  shows "rows_loop sp (enumerate_from (Suc (length pre)) rest) out
     = (case collect (map (segment sp) [max 1 (length pre)..<length sp]) of
          Inl x \<Rightarrow> Inl x
        | Inr ds \<Rightarrow>
            Inr (out @ map (table_row sp) (enumerate_from (Suc (length pre)) rest)))"
  using assms
proof (induction rest arbitrary: pre out)
  case Nil
  then show ?case by (simp add: enumerate_from_Nil)
next
  case (Cons p rest)
  have sp: "sp = (pre @ [p]) @ rest" using Cons.prems by simp
  note IH = Cons.IH [OF sp]
  show ?case
  proof (cases "pre = []")
    case True
    obtain s where s: "row_values sp 1 p = Inr (0, s, 0, 0)"
      using row_values_first by blast
    have t: "table_row sp (1, p) = kroki_row 1 (fst p) (fst (snd p)) (0, s, 0, 0)"
      using s by (simp add: table_row_def)
    show ?thesis
      using IH [of "out @ [kroki_row 1 (fst p) (fst (snd p)) (0, s, 0, 0)]"] True s t
      by (simp add: enumerate_from_Cons split: sum.splits)
  next
    case False
    let ?k = "length pre"
    have lt: "?k < length sp" using Cons.prems by simp
    have mx: "max 1 ?k = ?k" using False by (cases pre) auto
    have idx: "[max (Suc 0) ?k..<length sp] = ?k # [Suc ?k..<length sp]"
      using lt mx by (simp add: upt_conv_Cons)
    note rv = row_values_later [OF Cons.prems False]
    show ?thesis
    proof (cases "segment sp ?k")
      case (Inl x)
      then show ?thesis
        using rv by (simp add: enumerate_from_Cons idx del: upt_Suc)
    next
      case (Inr d)
      then have "row_values sp (Suc ?k) p = Inr (projr (row_values sp (Suc ?k) p))"
        using rv by simp
      then obtain v where r: "row_values sp (Suc ?k) p = Inr v"
        by blast
      have t: "table_row sp (Suc ?k, p) = kroki_row (Suc ?k) (fst p) (fst (snd p)) v"
        using r by (simp add: table_row_def)
      have step: "rows_loop sp (enumerate_from (Suc ?k) (p # rest)) out
          = rows_loop sp (enumerate_from (Suc (Suc ?k)) rest) (out @ [table_row sp (Suc ?k, p)])"
        using r t by (simp add: enumerate_from_Cons)
      show ?thesis
        unfolding step
        using IH [of "out @ [table_row sp (Suc ?k, p)]"] Inr
        by (simp add: idx enumerate_from_Cons split: sum.splits del: upt_Suc)
    qed
  qed
qed

lemma output_lines_of_spec:
  "output_lines_of sp
     = (case distances sp of
          Inl x \<Rightarrow> Inl x
        | Inr ds \<Rightarrow>
            Inr (kroki_header @ map (table_row sp) (enumerate_from 1 sp)
                 @ [replicate 100 CHR ''-''] @ projr (totals sp) @ ['''']))"
  using rows_loop_spec [of sp "[]" sp kroki_header]
  by (auto simp: output_lines_of_def distances_def totals_def kroki_total_dist_def
      split: sum.splits option.splits)

lemma totals_ok: "distances sp = Inr ds \<Longrightarrow> \<exists>ts. totals sp = Inr ts"
  by (simp add: totals_def kroki_total_dist_def split: option.splits)

lemma distances_cong:
  assumes "map coords sp = map coords sp'"
  shows "distances sp = distances sp'"
proof -
  have len: "length sp = length sp'"
    using assms by (metis length_map)
  have c: "coords (sp ! i) = coords (sp' ! i)" if "i < length sp" for i
    using that assms len by (metis nth_map)
  have "segment sp i = segment sp' i" if "i \<in> set [1..<length sp]" for i
  proof -
    have "i < length sp" "i - 1 < length sp" using that by auto
    then have "coords (sp ! i) = coords (sp' ! i)" "coords (sp ! (i - 1)) = coords (sp' ! (i - 1))"
      using c by blast+
    then show ?thesis
      by (simp add: segment_def coords_def)
  qed
  then have "map (segment sp) [1..<length sp] = map (segment sp') [1..<length sp]"
    by (intro map_cong) auto
  then show ?thesis
    by (simp only: distances_def len)
qed

lemma distances_ok:
  assumes "list_all moderate sp"
  shows "\<exists>ds. distances sp = Inr ds"
proof -
  have "\<exists>v. segment sp i = Inr v" if "i \<in> set [1..<length sp]" for i
  proof -
    have "i < length sp" "i - 1 < length sp" using that by auto
    then have "sp ! i \<in> set sp" "sp ! (i - 1) \<in> set sp"
      by (simp_all only: nth_mem)
    then have "moderate (sp ! i)" "moderate (sp ! (i - 1))"
      using assms by (auto simp: list_all_iff)
    then show ?thesis
      unfolding segment_def moderate_def by (intro calculate_distance_ok) simp_all
  qed
  then show ?thesis
    unfolding distances_def by (intro collect_ok) auto
qed

section \<open>The first point, the totals and the azimuth\<close>

lemma length_enumerate_from: "length (enumerate_from k xs) = length xs"
  by (simp add: enumerate_from_def)

lemma first_row:
  assumes "sp \<noteq> []" and "output_lines_of sp = Inr ls" and "row_values sp 1 (hd sp) = Inr v"
  shows "ls ! 6 = kroki_row 1 (fst (hd sp)) (fst (snd (hd sp))) v"
proof -
  obtain p ps where sp: "sp = p # ps" using assms(1) by (cases sp) auto
  obtain ds where ds: "distances sp = Inr ds"
    using assms(2) by (cases "distances sp") (simp_all add: output_lines_of_spec)
  have len: "length kroki_header = 6" by (simp add: kroki_header_def)
  have ls: "ls = kroki_header @ map (table_row sp) (enumerate_from 1 sp)
      @ [replicate 100 CHR ''-''] @ projr (totals sp) @ ['''']"
    using assms(2) ds by (simp add: output_lines_of_spec)
  have "ls ! 6 = table_row sp (1, p)"
    unfolding ls using len by (simp add: nth_append sp enumerate_from_Cons)
  then show ?thesis
    using assms(3) by (simp add: table_row_def sp)
qed

text \<open>
  C8. For every non-empty route the first entry of the profile has distance 0, elevation
  difference 0 and azimuth 0. In gpx2lv95 it is the first entry that \<^verbatim>\<open>build_profile\<close>
  returns, for every route. In gpx2kroki, whenever the first loop ends without an
  exception, they are the values of the first pass of the second loop, and the first row of
  the table (line 6 of the output, after the six lines of the heading) in every report
  that is produced; for a route whose points are in range the first loop does end without
  an exception and the report is produced.
\<close>

theorem first_entry_zero:
  assumes "points \<noteq> []"
  shows "(\<exists>profile logs sent. build_profile pf http tr ginv points use = Inr (profile, logs, sent)
            \<and> profile \<noteq> [] \<and> p_dist (hd profile) = 0 \<and> p_delta_ele (hd profile) = 0
            \<and> p_azimuth (hd profile) = 0)
       \<and> (\<forall>sp err sent.
             swiss_loop pf http fetch (enumerate_from 0 points) ([], err0, [])
               = ((sp, err, sent), None) \<longrightarrow>
             sp \<noteq> []
             \<and> (\<exists>s. row_values sp 1 (hd sp) = Inr (0, s, 0, 0)
                  \<and> (\<forall>ls. output_lines_of sp = Inr ls \<longrightarrow>
                        ls ! 6 = kroki_row 1 (fst (hd sp)) (fst (snd (hd sp))) (0, s, 0, 0))))
       \<and> (list_all in_range points \<longrightarrow>
            (\<exists>sp err sent ls.
               swiss_loop pf http fetch (enumerate_from 0 points) ([], err0, [])
                 = ((sp, err, sent), None)
               \<and> output_lines_of sp = Inr ls))"
proof (intro conjI allI impI)
  obtain p ps where pts: "points = p # ps" using assms by (cases points) auto
  have "hd (map (expected_entry pf http tr ginv use points) [0..<length points])
      = expected_entry pf http tr ginv use points 0"
    by (simp add: pts upt_conv_Cons del: upt_Suc)
  then show "\<exists>profile logs sent. build_profile pf http tr ginv points use
              = Inr (profile, logs, sent)
            \<and> profile \<noteq> [] \<and> p_dist (hd profile) = 0 \<and> p_delta_ele (hd profile) = 0
            \<and> p_azimuth (hd profile) = 0"
    using assms by (simp add: build_profile_spec expected_entry_def Let_def)
next
  fix sp err sent
  assume a: "swiss_loop pf http fetch (enumerate_from 0 points) ([], err0, [])
      = ((sp, err, sent), None)"
  from swiss_loop_shape [of pf http fetch 0 points "[]" err0 "[]"] a
  have "length sp = length points" by auto
  then show ne: "sp \<noteq> []" using assms by auto
  obtain s where s: "row_values sp 1 (hd sp) = Inr (0, s, 0, 0)"
    using row_values_first by blast
  have "\<forall>ls. output_lines_of sp = Inr ls \<longrightarrow>
      ls ! 6 = kroki_row 1 (fst (hd sp)) (fst (snd (hd sp))) (0, s, 0, 0)"
    using first_row [OF ne _ s] by blast
  then show "\<exists>s. row_values sp 1 (hd sp) = Inr (0, s, 0, 0)
      \<and> (\<forall>ls. output_lines_of sp = Inr ls \<longrightarrow>
            ls ! 6 = kroki_row 1 (fst (hd sp)) (fst (snd (hd sp))) (0, s, 0, 0))"
    using s by blast
next
  assume "list_all in_range points"
  from swiss_loop_in_range [OF this, of pf http fetch 0 "[]" err0 "[]"]
  obtain sp err sent where
    a: "swiss_loop pf http fetch (enumerate_from 0 points) ([], err0, []) = ((sp, err, sent), None)"
    and m: "list_all moderate sp"
    by auto
  obtain ds where "distances sp = Inr ds"
    using distances_ok [OF m] by blast
  then have "\<exists>ls. output_lines_of sp = Inr ls"
    by (simp add: output_lines_of_spec)
  then show "\<exists>sp err sent ls.
      swiss_loop pf http fetch (enumerate_from 0 points) ([], err0, []) = ((sp, err, sent), None)
      \<and> output_lines_of sp = Inr ls"
    using a by blast
qed

theorem first_entry_zero_witness:
  "(\<exists>profile logs sent. build_profile decimal_float unreachable origin_transform flat_geod
        [(93 / 2, 15 / 2, Some 1000), (47, 8, None)] False = Inr (profile, logs, sent)
      \<and> profile \<noteq> [] \<and> p_dist (hd profile) = 0 \<and> p_delta_ele (hd profile) = 0
      \<and> p_azimuth (hd profile) = 0)
   \<and> (\<exists>sp err sent ls s. swiss_loop decimal_float unreachable False
          (enumerate_from 0 [(93 / 2, 15 / 2, Some 1000), (47, 8, None)]) ([], [], [])
        = ((sp, err, sent), None)
      \<and> sp \<noteq> [] \<and> output_lines_of sp = Inr ls
      \<and> row_values sp 1 (hd sp) = Inr (0, s, 0, 0)
      \<and> ls ! 6 = kroki_row 1 (fst (hd sp)) (fst (snd (hd sp))) (0, s, 0, 0))"
proof -
  let ?points = "[(93 / 2, 15 / 2, Some 1000), (47, 8, None)] :: raw_point list"
  have ne: "?points \<noteq> []" by simp
  have r: "list_all in_range ?points" by (simp add: in_range_def)
  note t = first_entry_zero [OF ne, of decimal_float unreachable origin_transform flat_geod
      False False "[]"]
  from t r obtain sp err sent ls where
    a: "swiss_loop decimal_float unreachable False (enumerate_from 0 ?points) ([], [], [])
        = ((sp, err, sent), None)"
    and b: "output_lines_of sp = Inr ls"
    by blast
  from t a b obtain s where "sp \<noteq> []" "row_values sp 1 (hd sp) = Inr (0, s, 0, 0)"
    "ls ! 6 = kroki_row 1 (fst (hd sp)) (fst (snd (hd sp))) (0, s, 0, 0)"
    by blast
  then have "\<exists>sp err sent ls s. swiss_loop decimal_float unreachable False
          (enumerate_from 0 ?points) ([], [], []) = ((sp, err, sent), None)
      \<and> sp \<noteq> [] \<and> output_lines_of sp = Inr ls
      \<and> row_values sp 1 (hd sp) = Inr (0, s, 0, 0)
      \<and> ls ! 6 = kroki_row 1 (fst (hd sp)) (fst (snd (hd sp))) (0, s, 0, 0)"
    using a b by blast
  then show ?thesis
    using t by blast
qed

text \<open>
  C1 does not hold in gpx2lv95. For a single point without elevation and with the lookup
  disabled, \<^verbatim>\<open>build_profile\<close> stores the sentinel 0.0 as the elevation, and the report
  ends with the lines of total ascent and total descent, computed from the sentinel.
\<close>

theorem sentinel_totals_printed:
  "build_profile pf http tr ginv [(lat, lon, None)] False
     = Inr ([\<lparr>p_e = fst (tr lon lat), p_n = snd (tr lon lat), p_ele = Some 0, p_dist = 0,
              p_azimuth = 0, p_delta_ele = 0\<rparr>], [], [])
   \<and> drop 7 (profile_lines [\<lparr>p_e = fst (tr lon lat), p_n = snd (tr lon lat), p_ele = Some 0,
                             p_dist = 0, p_azimuth = 0, p_delta_ele = 0\<rparr>])
     = [''Total ascent : 0.00'' @ nnbsp @ ''m'', ''Total descent: 0.00'' @ nnbsp @ ''m'']"
  by (simp add: build_profile_spec expected_entry_def resolve_def fetch_elevation_def Let_def
      profile_lines_def ascent_def descent_def py_sum_Nil fmt2_zero enumerate_from_Cons
      enumerate_from_Nil split: prod.splits)

text \<open>
  The test of \<^verbatim>\<open>format_profile\<close> decides the two lines, and it never fails on a profile
  of \<^verbatim>\<open>build_profile\<close>; gpx2kroki prints its three lines of totals exactly when no
  elevation is \<^verbatim>\<open>None\<close>.
\<close>

lemma profile_lines_totals:
  "drop (length profile + 6) (profile_lines profile)
     = (if list_all (\<lambda>p. p_ele p \<noteq> None) profile
        then [''Total ascent : '' @ fmt2 (ascent profile) @ nnbsp @ ''m'',
              ''Total descent: '' @ fmt2 (descent profile) @ nnbsp @ ''m'']
        else [])"
proof -
  define pre where "pre = [header, '''', col_hdr, replicate 100 CHR ''-'']
     @ map row (enumerate_from 1 profile)
     @ [replicate 100 CHR ''-'']
     @ [newline # ''Total distance: '' @ fmt2 (total_dist profile) @ nnbsp @ ''m'']"
  have len: "length pre = length profile + 6"
    by (simp add: pre_def length_enumerate_from)
  have "profile_lines profile = pre @ (if list_all (\<lambda>p. p_ele p \<noteq> None) profile
        then [''Total ascent : '' @ fmt2 (ascent profile) @ nnbsp @ ''m'',
              ''Total descent: '' @ fmt2 (descent profile) @ nnbsp @ ''m'']
        else [])"
    by (simp add: profile_lines_def pre_def)
  then show ?thesis
    using len by simp
qed

lemma profile_lines_rows:
  "take (length profile) (drop 4 (profile_lines profile)) = map row (enumerate_from 1 profile)"
  by (simp add: profile_lines_def length_enumerate_from)

lemma build_profile_all_resolved:
  "build_profile pf http tr ginv points use = Inr (profile, logs, sent) \<Longrightarrow>
     length profile = length points \<and> list_all (\<lambda>p. p_ele p \<noteq> None) profile"
  by (auto simp: build_profile_spec list_all_iff expected_entry_def Let_def)

lemma those_Some_iff: "(\<exists>h. those xs = Some h) \<longleftrightarrow> list_all (\<lambda>x. x \<noteq> None) xs"
  by (induction xs) (auto split: option.splits)

lemma kroki_totals_iff:
  assumes "totals sp = Inr ts"
  shows "length ts = 3 \<longleftrightarrow> list_all (\<lambda>p. snd (snd p) \<noteq> None) sp"
proof -
  have "list_all (\<lambda>x. x \<noteq> None) (map (\<lambda>p. snd (snd p)) sp)
      \<longleftrightarrow> list_all (\<lambda>p. snd (snd p) \<noteq> None) sp"
    by (simp add: list_all_iff)
  then have iff: "(\<exists>h. those (map (\<lambda>p. snd (snd p)) sp) = Some h)
      \<longleftrightarrow> list_all (\<lambda>p. snd (snd p) \<noteq> None) sp"
    using those_Some_iff [of "map (\<lambda>p. snd (snd p)) sp"] by simp
  show ?thesis
  proof (cases "those (map (\<lambda>p. snd (snd p)) sp)")
    case None
    then show ?thesis using iff assms by (auto simp: totals_def split: sum.splits)
  next
    case (Some h)
    then show ?thesis using iff assms by (auto simp: totals_def split: sum.splits)
  qed
qed

text \<open>
  C2 does not hold in gpx2lv95. The azimuth reported for the second of two points is the
  forward azimuth that \<^verbatim>\<open>GEOD.inv\<close> returns, as it is: nothing brings it into the
  interval from 0 to 360, and pyproj gives forward azimuths between -180 and 180.
\<close>

theorem azimuth_not_normalised:
  "\<exists>profile logs sent. build_profile pf http tr ginv [(lat1, lon1, ele1), (lat2, lon2, ele2)] use
       = Inr (profile, logs, sent)
     \<and> map p_azimuth profile = [0, fst (ginv lon1 lat1 lon2 lat2)]"
  by (simp add: build_profile_spec expected_entry_def Let_def upt_conv_Cons del: upt_Suc)

section \<open>Elevation resolution\<close>

text \<open>
  C4, as stated, fails in gpx2kroki: for a point without elevation and with the lookup
  disabled the elevation stored in \<open>swiss_points\<close> is \<^verbatim>\<open>None\<close>, not 0.0, and the row of
  such a point shows \<open>N/A\<close>.
\<close>

theorem absent_elevation_stays_absent:
  "map (\<lambda>q. snd (snd q))
     (fst (fst (swiss_loop decimal_float unreachable False [(0, (93 / 2, 15 / 2, None))]
                  ([], [], []))))
     = [None]
   \<and> snd (swiss_loop decimal_float unreachable False [(0, (93 / 2, 15 / 2, None))] ([], [], []))
     = None
   \<and> row_values [(2600000, 1200000, None)] 1 (2600000, 1200000, None)
     = Inr (0, ''N/A'', 0, 0)"
proof -
  obtain e n where "wgs84_to_lv95 (93 / 2) (15 / 2) = Inr (e, n)"
    using wgs84_to_lv95_in_range [of "93 / 2" "15 / 2"] by auto
  then show ?thesis
    by (simp add: row_values_def)
qed

text \<open>
  C4, amended. An elevation that is present is returned unchanged and the height service
  is not consulted: no request is sent, and nothing is logged or printed. When it is absent
  and the lookup is disabled, no request is sent either; \<^verbatim>\<open>fetch_elevation\<close> of gpx2lv95
  returns the sentinel 0.0, and gpx2kroki keeps the elevation absent (\<^verbatim>\<open>None\<close>). The
  resolution of the elevation does not fail: the pass of the loop of gpx2kroki ends with
  an exception only when the projection of the point overflows.
\<close>

theorem present_elevation_kept:
  "fetch_elevation pf http (Some v) e n use = (v, [], [])
   \<and> fetch_elevation pf http None e n False = (0, [], [])
   \<and> build_profile pf http tr ginv [(lat, lon, Some v)] use
       = Inr ([\<lparr>p_e = fst (tr lon lat), p_n = snd (tr lon lat), p_ele = Some v, p_dist = 0,
                p_azimuth = 0, p_delta_ele = 0\<rparr>], [], [])
   \<and> swiss_loop pf http fetch [(i, (lat, lon, Some v))] (sp, err, sent)
       = (case wgs84_to_lv95 lat lon of
            Inl x \<Rightarrow> ((sp, err, sent), Some x)
          | Inr (e', n') \<Rightarrow> ((sp @ [(e', n', Some v)], err, sent), None))
   \<and> swiss_loop pf http False [(i, (lat, lon, None))] (sp, err, sent)
       = (case wgs84_to_lv95 lat lon of
            Inl x \<Rightarrow> ((sp, err, sent), Some x)
          | Inr (e', n') \<Rightarrow> ((sp @ [(e', n', None)], err, sent), None))"
  by (simp add: fetch_elevation_def build_profile_spec expected_entry_def resolve_def Let_def
      split: prod.splits sum.splits)

lemma findall_doc_empty: "findall t doc_empty = []"
  by (simp add: findall_def doc_empty_def)

text \<open>
  C6 does not hold in gpx2kroki. For a document without any point \<^verbatim>\<open>generate_kroki\<close>
  prints an error message and returns: no exception reaches \<^verbatim>\<open>main\<close>, and the process
  ends with status 0, as after a conversion. gpx2lv95 raises \<^verbatim>\<open>ValueError\<close> there and
  ends with status 1. Neither produces a report.
\<close>

theorem no_points_exit_status:
  "kroki_main pf http fs gpx_file doc_empty output_file fetch
     = (0, \<lparr>k_stdout = [], k_stderr = [''Error: No points found in GPX file''],
            k_written = None, k_requests = []\<rparr>)"
  by (simp add: kroki_main_def generate_kroki_def kroki_parse_gpx_def findall_doc_empty)

lemma lv95_no_points_exit_status:
  "main pf http tr ginv fs gpx_file doc_empty output_file use
     = \<lparr>exit_status = 1, printed = [], written = None,
        logged = [Error ''Unexpected error: No track/route points found in the GPX file.''],
        requested = []\<rparr>"
  by (simp add: main_def core_def parse_gpx_def py_or_def findall_doc_empty str_error_def
      failed_def)

text \<open>The kinds of failure named in the specification, as each program sees them.\<close>

lemma request_height_failures:
  "http e n = Inl x \<Longrightarrow> fst (request_height pf http e n) = Inl x"
  "http e n = Inr (Reply st b) \<Longrightarrow> 400 \<le> st \<and> st < 600
     \<Longrightarrow> fst (request_height pf http e n) = Inl (HTTPError st)"
  "http e n = Inr (Reply st None) \<Longrightarrow> st < 400 \<or> 600 \<le> st
     \<Longrightarrow> fst (request_height pf http e n) = Inl JSONDecodeError"
  "http e n = Inr (Reply st (Some (JObject kvs))) \<Longrightarrow> st < 400 \<or> 600 \<le> st
     \<Longrightarrow> map_of kvs ''height'' = None
     \<Longrightarrow> fst (request_height pf http e n) = Inl (KeyError ''height'')"
  by (auto simp: request_height_def send_def raise_for_status_def json_of_def subscript_def)

lemma read_height_failures:
  "http e n = Inl x \<Longrightarrow> fst (read_height pf http e n) = Inl x"
  "http e n = Inr (Reply st b) \<Longrightarrow> st < 200 \<or> 300 \<le> st
     \<Longrightarrow> fst (read_height pf http e n) = Inl (HTTPError st)"
  "http e n = Inr (Reply st None) \<Longrightarrow> 200 \<le> st \<and> st < 300
     \<Longrightarrow> fst (read_height pf http e n) = Inl JSONDecodeError"
  "http e n = Inr (Reply st (Some (JObject kvs))) \<Longrightarrow> 200 \<le> st \<and> st < 300
     \<Longrightarrow> ''height'' \<notin> fst ` set kvs
     \<Longrightarrow> fst (read_height pf http e n) = Inr None"
  by (auto simp: read_height_def urlopen_def send_def json_of_def contains_def)

lemma requests_sent:
  "snd (request_height pf http e n) = [(e, n)]"
  "snd (read_height pf http e n) = [(e, n)]"
  by (simp_all add: request_height_def read_height_def urlopen_def send_def)

lemma fetch_elevation_warns:
  "fst (request_height pf http e n) = Inl exc \<Longrightarrow>
     fetch_elevation pf http None e n True
       = (0, [Warning (''Could not fetch elevation for E='' @ fmt2 e @ '', N='' @ fmt2 n
                       @ '': '' @ str_error exc)], [(e, n)])"
  using requests_sent(1) [of pf http e n]
  by (cases "request_height pf http e n") (simp add: fetch_elevation_def)

lemma fetch_elevation_swisstopo_warns:
  "fst (read_height pf http e n) = Inl exc \<Longrightarrow>
     fetch_elevation_swisstopo pf http e n
       = (None, [''Warning: Could not fetch elevation for E='' @ fmt2 e @ '', N='' @ fmt2 n
                 @ '': '' @ str_error exc], [(e, n)])"
  using requests_sent(2) [of pf http e n]
  by (cases "read_height pf http e n") (simp add: fetch_elevation_swisstopo_def)

lemma fetch_elevation_swisstopo_silent:
  "fst (read_height pf http e n) = Inr None \<Longrightarrow>
     fetch_elevation_swisstopo pf http e n = (None, [], [(e, n)])"
  using requests_sent(2) [of pf http e n]
  by (cases "read_height pf http e n") (simp add: fetch_elevation_swisstopo_def)

lemma main_same_status:
  "exit_status (main pf http tr ginv fs gpx_file doc output_file use)
     = exit_status (main pf http' tr ginv fs gpx_file doc output_file use)"
  by (simp add: main_def core_def build_profile_spec failed_def
      split: sum.splits option.splits)

lemma main_complete:
  assumes "parse_gpx pf doc = Inr pts" and "pts \<noteq> []"
  shows "\<exists>profile logs sent.
      build_profile pf http tr ginv pts use = Inr (profile, logs, sent)
      \<and> length profile = length pts
      \<and> take (length pts) (drop 4 (profile_lines profile)) = map row (enumerate_from 1 profile)
      \<and> (output_file = None \<longrightarrow>
           main pf http tr ginv fs gpx_file doc output_file use
             = \<lparr>exit_status = 0, printed = [format_profile profile], written = None,
                logged = logs, requested = sent\<rparr>)
      \<and> (\<forall>path. output_file = Some path \<and> fs path = None \<longrightarrow>
           main pf http tr ginv fs gpx_file doc output_file use
             = \<lparr>exit_status = 0, printed = [], written = Some (path, format_profile profile),
                logged = logs @ [Info (''Kroki written to '' @ path)], requested = sent\<rparr>)"
proof -
  obtain profile logs sent where
    b: "build_profile pf http tr ginv pts use = Inr (profile, logs, sent)"
    by (simp add: build_profile_spec)
  have len: "length profile = length pts"
    using build_profile_all_resolved [OF b] by simp
  have rows: "take (length pts) (drop 4 (profile_lines profile))
      = map row (enumerate_from 1 profile)"
    using profile_lines_rows [of profile] len by simp
  show ?thesis
    using assms b len rows by (auto simp: main_def core_def)
qed

text \<open>
  \<^verbatim>\<open>generate_kroki\<close> once the first loop has ended without an exception: what follows
  depends on the distances between the points only.
\<close>

lemma generate_kroki_after_loop:
  assumes "kroki_parse_gpx pf doc = Inr points" and "points \<noteq> []"
    and "swiss_loop pf http fetch (enumerate_from 0 points)
           ([], if list_ex (\<lambda>p. snd (snd p) = None) points \<and> fetch
                then [''Fetching elevation data from swisstopo API...''] else [], [])
         = ((sp, err1, sent), x)"
  shows "snd (generate_kroki pf http fs doc output_file fetch)
     = (case x of
          Some ex \<Rightarrow> Some ex
        | None \<Rightarrow>
            (case distances sp of
               Inl ex \<Rightarrow> Some ex
             | Inr ds \<Rightarrow>
                 (case output_file of
                    None \<Rightarrow> None
                  | Some path \<Rightarrow> if path \<noteq> [] then fs path else None)))"
  using assms
  by (simp add: generate_kroki_def Let_def output_lines_of_spec
      split: option.splits sum.splits)

lemma generate_kroki_same_failure:
  "snd (generate_kroki pf http fs doc output_file fetch)
     = snd (generate_kroki pf http' fs doc output_file fetch)"
proof (cases "kroki_parse_gpx pf doc")
  case (Inl x)
  then show ?thesis by (simp add: generate_kroki_def)
next
  case (Inr points)
  show ?thesis
  proof (cases "points = []")
    case True
    then show ?thesis using Inr by (simp add: generate_kroki_def)
  next
    case False
    let ?err0 = "if list_ex (\<lambda>p. snd (snd p) = None) points \<and> fetch
                then [''Fetching elevation data from swisstopo API...''] else []"
    obtain sp err1 sent x where
      a: "swiss_loop pf http fetch (enumerate_from 0 points) ([], ?err0, []) = ((sp, err1, sent), x)"
      using swiss_loop_shape [of pf http fetch 0 points "[]" ?err0 "[]"] by auto
    obtain sp' err1' sent' x' where
      a': "swiss_loop pf http' fetch (enumerate_from 0 points) ([], ?err0, [])
           = ((sp', err1', sent'), x')"
      using swiss_loop_shape [of pf http' fetch 0 points "[]" ?err0 "[]"] by auto
    have g: "x = x'" "map coords sp = map coords sp'"
      using swiss_loop_geometry [of "[]" "[]" pf http fetch 0 points ?err0 "[]" http' ?err0 "[]"]
        a a' by simp_all
    have d: "distances sp = distances sp'"
      using g(2) by (rule distances_cong)
    show ?thesis
      by (simp only: generate_kroki_after_loop [OF Inr False a]
          generate_kroki_after_loop [OF Inr False a'] g(1) d)
  qed
qed

lemma generate_kroki_complete:
  assumes "kroki_parse_gpx pf doc = Inr pts" and "pts \<noteq> []"
    and "generate_kroki pf http fs doc output_file fetch = (r, None)"
  shows "\<exists>sp ts. length sp = length pts
     \<and> (k_stdout r = [kroki_report sp ts]
         \<or> (\<exists>path. output_file = Some path \<and> k_written r = Some (path, kroki_report sp ts)))"
proof -
  let ?err0 = "if list_ex (\<lambda>p. snd (snd p) = None) pts \<and> fetch
              then [''Fetching elevation data from swisstopo API...''] else []"
  obtain sp err1 sent x where
    a: "swiss_loop pf http fetch (enumerate_from 0 pts) ([], ?err0, []) = ((sp, err1, sent), x)"
    and len: "x = None \<longrightarrow> length sp = length pts"
    using swiss_loop_shape [of pf http fetch 0 pts "[]" ?err0 "[]"] by auto
  have s: "snd (generate_kroki pf http fs doc output_file fetch) = None"
    using assms(3) by simp
  have x: "x = None"
    using s generate_kroki_after_loop [OF assms(1,2) a, of fs output_file]
    by (cases x) simp_all
  obtain ds where ds: "distances sp = Inr ds"
    using s x generate_kroki_after_loop [OF assms(1,2) a, of fs output_file]
    by (cases "distances sp") simp_all
  have "k_stdout r = [kroki_report sp (projr (totals sp))]
      \<or> (\<exists>path. output_file = Some path
            \<and> k_written r = Some (path, kroki_report sp (projr (totals sp))))"
    using assms a x ds
    by (auto simp: generate_kroki_def Let_def output_lines_of_spec kroki_report_def
        split: option.splits if_splits)
  then show ?thesis
    using len x by blast
qed

lemma generate_kroki_in_range:
  assumes "kroki_parse_gpx pf doc = Inr pts" and "pts \<noteq> []" and "list_all in_range pts"
    and "output_file = None \<or> (\<exists>path. output_file = Some path \<and> fs path = None)"
  shows "snd (generate_kroki pf http fs doc output_file fetch) = None"
proof -
  let ?err0 = "if list_ex (\<lambda>p. snd (snd p) = None) pts \<and> fetch
              then [''Fetching elevation data from swisstopo API...''] else []"
  obtain sp err1 sent where
    a: "swiss_loop pf http fetch (enumerate_from 0 pts) ([], ?err0, []) = ((sp, err1, sent), None)"
    and m: "list_all moderate sp"
    using swiss_loop_in_range [OF assms(3), of pf http fetch 0 "[]" ?err0 "[]"] by auto
  obtain ds where ds: "distances sp = Inr ds"
    using distances_ok [OF m] by blast
  show ?thesis
    using assms(4) by (auto simp: generate_kroki_after_loop [OF assms(1,2) a] ds)
qed

lemma kroki_main_status:
  "fst (kroki_main pf http fs gpx_file doc output_file fetch)
     = (case snd (generate_kroki pf http fs doc output_file fetch) of None \<Rightarrow> 0 | Some ex \<Rightarrow> 1)"
  by (cases "generate_kroki pf http fs doc output_file fetch")
    (simp add: kroki_main_def split: option.splits)

lemma str_nat_eval: "str_nat 2600000 = ''2600000''" "str_nat 1200000 = ''1200000''"
  "str_nat 500 = ''500''"
  by (simp_all add: str_nat.simps digit_char_def)

lemma fmt2_eval: "fmt2 2600000 = ''2600000.00''" "fmt2 1200000 = ''1200000.00''"
proof -
  have "rne (2600000 * 100) = 260000000" "rne (1200000 * 100) = 120000000"
    using rne_of_int [of 260000000] rne_of_int [of 120000000] by simp_all
  then show "fmt2 2600000 = ''2600000.00''" "fmt2 1200000 = ''1200000.00''"
    by (simp_all add: fmt2_def str_nat_eval digit_char_def)
qed

lemma findall_doc_no_ele:
  "findall trkpt doc_no_ele = [Element trkpt [(''lat'', ''46.5''), (''lon'', ''7.5'')] None []]"
  by (simp add: findall_def doc_no_ele_def trkpt_def gpx_ns_def)

lemma extract_elem_no_ele:
  "extract_elem decimal_float (Element trkpt [(''lat'', ''46.5''), (''lon'', ''7.5'')] None [])
     = Inr (93 / 2, 15 / 2, None)"
  by (simp add: extract_elem_def get_def float_of_def read_ele_def find_child_def
      decimal_float_46_5 decimal_float_7_5)

lemma parse_doc_no_ele:
  "parse_gpx decimal_float doc_no_ele = Inr [(93 / 2, 15 / 2, None)]"
  "kroki_parse_gpx decimal_float doc_no_ele = Inr [(93 / 2, 15 / 2, None)]"
  by (simp_all add: parse_gpx_def py_or_def findall_doc_no_ele extract_elem_no_ele
      kroki_parse_gpx_precedence kroki_loop_skips has_coords_def get_def)

text \<open>
  C5, as stated, fails in three ways. In gpx2kroki a reply that is well-formed JSON without
  the field \<open>height\<close> resolves the point to \<^verbatim>\<open>None\<close> and no warning is printed. In
  gpx2lv95 a reply with the status 300 that carries a height is taken as a success: the
  height is returned and nothing is logged. And a run in which the lookup has failed and
  was recovered can still end without a report: here the output file cannot be written,
  and gpx2lv95 ends with status 1.
\<close>

theorem missing_height_is_silent:
  "fetch_elevation_swisstopo decimal_float no_height 2600000 1200000
     = (None, [], [(2600000, 1200000)])
   \<and> fetch_elevation decimal_float multiple_choices None 2600000 1200000 True
     = (500, [], [(2600000, 1200000)])
   \<and> main decimal_float unreachable origin_transform flat_geod no_directory ''route.gpx''
        doc_no_ele (Some ''out/kroki.txt'') True
     = \<lparr>exit_status = 1, printed = [], written = None,
        logged = [Warning ''Could not fetch elevation for E=2600000.00, N=1200000.00: request failed'',
                  Error ''File not found: route.gpx''],
        requested = [(2600000, 1200000)]\<rparr>"
proof -
  have a: "fetch_elevation_swisstopo decimal_float no_height 2600000 1200000
      = (None, [], [(2600000, 1200000)])"
    by (simp add: fetch_elevation_swisstopo_def read_height_def urlopen_def send_def
        no_height_def json_of_def contains_def)
  have b: "fetch_elevation decimal_float multiple_choices None 2600000 1200000 True
      = (500, [], [(2600000, 1200000)])"
    by (simp add: fetch_elevation_def request_height_def send_def multiple_choices_def
        raise_for_status_def json_of_def subscript_def float_json_def)
  have r: "resolve decimal_float unreachable origin_transform True (93 / 2, 15 / 2, None)
      = (0, [Warning ''Could not fetch elevation for E=2600000.00, N=1200000.00: request failed''],
         [(2600000, 1200000)])"
    by (simp add: resolve_def origin_transform_def fetch_elevation_def request_height_def
        send_def unreachable_def fmt2_eval str_error_def)
  have c: "main decimal_float unreachable origin_transform flat_geod no_directory ''route.gpx''
        doc_no_ele (Some ''out/kroki.txt'') True
     = \<lparr>exit_status = 1, printed = [], written = None,
        logged = [Warning ''Could not fetch elevation for E=2600000.00, N=1200000.00: request failed'',
                  Error ''File not found: route.gpx''],
        requested = [(2600000, 1200000)]\<rparr>"
    by (simp add: main_def core_def parse_doc_no_ele build_profile_spec r no_directory_def
        failed_def)
  show ?thesis
    using a b c by simp
qed

text \<open>
  C5, amended. For every point whose lookup fails by an exception, the resolver logs a
  warning that identifies the coordinate and resolves the point to the sentinel: 0.0 in
  gpx2lv95, \<^verbatim>\<open>None\<close> in gpx2kroki. The exceptions are: no answer from the service; a status
  that the client rejects, which is 400 to 599 in gpx2lv95 and anything outside 200 to 299
  in gpx2kroki; a body that is not JSON; and, in gpx2lv95 only, a JSON object without the
  field \<open>height\<close>. In gpx2kroki a JSON object without that field resolves the point to
  \<^verbatim>\<open>None\<close> without a warning. The failure of a lookup never propagates and never aborts
  the conversion: the status with which gpx2lv95 ends and the exception, if any, with
  which \<^verbatim>\<open>generate_kroki\<close> ends are the same whatever the service answers. A run of
  gpx2lv95 over a route that is not empty builds a profile with one row for each point,
  and prints it, or writes it when the file can be written. A run of \<^verbatim>\<open>generate_kroki\<close>
  over a route that is not empty that ends without an exception has printed or written
  a report with one row for each point; and it ends without an exception, gpx2kroki then
  ending with status 0, when every point has a latitude from -90 to 90 and a longitude
  from -180 to 180 and the report is printed or its file can be written.
\<close>

theorem lookup_failure_recoverable:
  "(fst (request_height pf http e n) = Inl exc \<longrightarrow>
      fetch_elevation pf http None e n True
        = (0, [Warning (''Could not fetch elevation for E='' @ fmt2 e @ '', N='' @ fmt2 n
                        @ '': '' @ str_error exc)], [(e, n)]))
   \<and> (http e n = Inl x \<longrightarrow> fst (request_height pf http e n) = Inl x)
   \<and> (http e n = Inr (Reply st b) \<and> 400 \<le> st \<and> st < 600 \<longrightarrow>
        fst (request_height pf http e n) = Inl (HTTPError st))
   \<and> (http e n = Inr (Reply st None) \<and> (st < 400 \<or> 600 \<le> st) \<longrightarrow>
        fst (request_height pf http e n) = Inl JSONDecodeError)
   \<and> (http e n = Inr (Reply st (Some (JObject kvs))) \<and> (st < 400 \<or> 600 \<le> st)
        \<and> map_of kvs ''height'' = None \<longrightarrow>
        fst (request_height pf http e n) = Inl (KeyError ''height''))
   \<and> (fst (read_height pf http e n) = Inl exc \<longrightarrow>
        fetch_elevation_swisstopo pf http e n
          = (None, [''Warning: Could not fetch elevation for E='' @ fmt2 e @ '', N='' @ fmt2 n
                    @ '': '' @ str_error exc], [(e, n)]))
   \<and> (http e n = Inl x \<longrightarrow> fst (read_height pf http e n) = Inl x)
   \<and> (http e n = Inr (Reply st b) \<and> (st < 200 \<or> 300 \<le> st) \<longrightarrow>
        fst (read_height pf http e n) = Inl (HTTPError st))
   \<and> (http e n = Inr (Reply st None) \<and> 200 \<le> st \<and> st < 300 \<longrightarrow>
        fst (read_height pf http e n) = Inl JSONDecodeError)
   \<and> (http e n = Inr (Reply st (Some (JObject kvs))) \<and> 200 \<le> st \<and> st < 300
        \<and> ''height'' \<notin> fst ` set kvs \<longrightarrow>
        fetch_elevation_swisstopo pf http e n = (None, [], [(e, n)]))
   \<and> exit_status (main pf http tr ginv fs gpx_file doc output_file use)
       = exit_status (main pf http' tr ginv fs gpx_file doc output_file use)
   \<and> snd (generate_kroki pf http fs doc output_file fetch)
       = snd (generate_kroki pf http' fs doc output_file fetch)
   \<and> (parse_gpx pf doc = Inr pts \<and> pts \<noteq> [] \<longrightarrow>
        (\<exists>profile logs sent.
           build_profile pf http tr ginv pts use = Inr (profile, logs, sent)
           \<and> length profile = length pts
           \<and> take (length pts) (drop 4 (profile_lines profile))
               = map row (enumerate_from 1 profile)
           \<and> (output_file = None \<longrightarrow>
                main pf http tr ginv fs gpx_file doc output_file use
                  = \<lparr>exit_status = 0, printed = [format_profile profile], written = None,
                     logged = logs, requested = sent\<rparr>)
           \<and> (\<forall>path. output_file = Some path \<and> fs path = None \<longrightarrow>
                main pf http tr ginv fs gpx_file doc output_file use
                  = \<lparr>exit_status = 0, printed = [],
                     written = Some (path, format_profile profile),
                     logged = logs @ [Info (''Kroki written to '' @ path)],
                     requested = sent\<rparr>)))
   \<and> (kroki_parse_gpx pf doc = Inr kpts \<and> kpts \<noteq> []
        \<and> generate_kroki pf http fs doc output_file fetch = (r, None) \<longrightarrow>
        (\<exists>sp ts. length sp = length kpts
           \<and> (k_stdout r = [kroki_report sp ts]
               \<or> (\<exists>path. output_file = Some path
                     \<and> k_written r = Some (path, kroki_report sp ts)))))
   \<and> (kroki_parse_gpx pf doc = Inr kpts \<and> kpts \<noteq> [] \<and> list_all in_range kpts
        \<and> (output_file = None \<or> (\<exists>path. output_file = Some path \<and> fs path = None)) \<longrightarrow>
        snd (generate_kroki pf http fs doc output_file fetch) = None
        \<and> fst (kroki_main pf http fs gpx_file doc output_file fetch) = 0)"
proof (intro conjI impI)
  show "exit_status (main pf http tr ginv fs gpx_file doc output_file use)
      = exit_status (main pf http' tr ginv fs gpx_file doc output_file use)"
    by (rule main_same_status)
  show "snd (generate_kroki pf http fs doc output_file fetch)
      = snd (generate_kroki pf http' fs doc output_file fetch)"
    by (rule generate_kroki_same_failure)
next
  assume "fst (request_height pf http e n) = Inl exc"
  then show "fetch_elevation pf http None e n True
      = (0, [Warning (''Could not fetch elevation for E='' @ fmt2 e @ '', N='' @ fmt2 n
                      @ '': '' @ str_error exc)], [(e, n)])"
    by (rule fetch_elevation_warns)
next
  assume "http e n = Inl x"
  then show "fst (request_height pf http e n) = Inl x"
    by (rule request_height_failures(1))
next
  assume "http e n = Inr (Reply st b) \<and> 400 \<le> st \<and> st < 600"
  then show "fst (request_height pf http e n) = Inl (HTTPError st)"
    using request_height_failures(2) [of http e n st b pf] by simp
next
  assume "http e n = Inr (Reply st None) \<and> (st < 400 \<or> 600 \<le> st)"
  then show "fst (request_height pf http e n) = Inl JSONDecodeError"
    using request_height_failures(3) [of http e n st pf] by blast
next
  assume "http e n = Inr (Reply st (Some (JObject kvs))) \<and> (st < 400 \<or> 600 \<le> st)
      \<and> map_of kvs ''height'' = None"
  then show "fst (request_height pf http e n) = Inl (KeyError ''height'')"
    using request_height_failures(4) [of http e n st kvs pf] by blast
next
  assume "fst (read_height pf http e n) = Inl exc"
  then show "fetch_elevation_swisstopo pf http e n
      = (None, [''Warning: Could not fetch elevation for E='' @ fmt2 e @ '', N='' @ fmt2 n
                @ '': '' @ str_error exc], [(e, n)])"
    by (rule fetch_elevation_swisstopo_warns)
next
  assume "http e n = Inl x"
  then show "fst (read_height pf http e n) = Inl x"
    by (rule read_height_failures(1))
next
  assume "http e n = Inr (Reply st b) \<and> (st < 200 \<or> 300 \<le> st)"
  then show "fst (read_height pf http e n) = Inl (HTTPError st)"
    using read_height_failures(2) [of http e n st b pf] by blast
next
  assume "http e n = Inr (Reply st None) \<and> 200 \<le> st \<and> st < 300"
  then show "fst (read_height pf http e n) = Inl JSONDecodeError"
    using read_height_failures(3) [of http e n st pf] by simp
next
  assume "http e n = Inr (Reply st (Some (JObject kvs))) \<and> 200 \<le> st \<and> st < 300
      \<and> ''height'' \<notin> fst ` set kvs"
  then have "fst (read_height pf http e n) = Inr None"
    using read_height_failures(4) [of http e n st kvs pf] by simp
  then show "fetch_elevation_swisstopo pf http e n = (None, [], [(e, n)])"
    by (rule fetch_elevation_swisstopo_silent)
next
  assume "parse_gpx pf doc = Inr pts \<and> pts \<noteq> []"
  then show "\<exists>profile logs sent.
      build_profile pf http tr ginv pts use = Inr (profile, logs, sent)
      \<and> length profile = length pts
      \<and> take (length pts) (drop 4 (profile_lines profile)) = map row (enumerate_from 1 profile)
      \<and> (output_file = None \<longrightarrow>
           main pf http tr ginv fs gpx_file doc output_file use
             = \<lparr>exit_status = 0, printed = [format_profile profile], written = None,
                logged = logs, requested = sent\<rparr>)
      \<and> (\<forall>path. output_file = Some path \<and> fs path = None \<longrightarrow>
           main pf http tr ginv fs gpx_file doc output_file use
             = \<lparr>exit_status = 0, printed = [], written = Some (path, format_profile profile),
                logged = logs @ [Info (''Kroki written to '' @ path)], requested = sent\<rparr>)"
    using main_complete [of pf doc pts http tr ginv use output_file fs gpx_file] by blast
next
  assume "kroki_parse_gpx pf doc = Inr kpts \<and> kpts \<noteq> []
      \<and> generate_kroki pf http fs doc output_file fetch = (r, None)"
  then show "\<exists>sp ts. length sp = length kpts
      \<and> (k_stdout r = [kroki_report sp ts]
          \<or> (\<exists>path. output_file = Some path \<and> k_written r = Some (path, kroki_report sp ts)))"
    using generate_kroki_complete [of pf doc kpts http fs output_file fetch r] by blast
next
  assume a: "kroki_parse_gpx pf doc = Inr kpts \<and> kpts \<noteq> [] \<and> list_all in_range kpts
      \<and> (output_file = None \<or> (\<exists>path. output_file = Some path \<and> fs path = None))"
  then have p: "kroki_parse_gpx pf doc = Inr kpts" "kpts \<noteq> []" "list_all in_range kpts"
    "output_file = None \<or> (\<exists>path. output_file = Some path \<and> fs path = None)"
    by simp_all
  show s: "snd (generate_kroki pf http fs doc output_file fetch) = None"
    by (rule generate_kroki_in_range [OF p])
  show "fst (kroki_main pf http fs gpx_file doc output_file fetch) = 0"
    by (simp add: kroki_main_status s)
qed

theorem lookup_failure_recoverable_witness:
  "fetch_elevation decimal_float unreachable None 2600000 1200000 True
     = (0, [Warning ''Could not fetch elevation for E=2600000.00, N=1200000.00: request failed''],
        [(2600000, 1200000)])
   \<and> fetch_elevation decimal_float server_error None 2600000 1200000 True
     = (0, [Warning ''Could not fetch elevation for E=2600000.00, N=1200000.00: HTTP Error 500''],
        [(2600000, 1200000)])
   \<and> fetch_elevation_swisstopo decimal_float not_json 2600000 1200000
     = (None, [''Warning: Could not fetch elevation for E=2600000.00, N=1200000.00: JSONDecodeError''],
        [(2600000, 1200000)])
   \<and> fetch_elevation_swisstopo decimal_float no_height 2600000 1200000
     = (None, [], [(2600000, 1200000)])
   \<and> main decimal_float unreachable origin_transform flat_geod writable ''route.gpx''
        doc_no_ele None True
     = \<lparr>exit_status = 0,
        printed = [format_profile [\<lparr>p_e = 2600000, p_n = 1200000, p_ele = Some 0, p_dist = 0,
                                    p_azimuth = 0, p_delta_ele = 0\<rparr>]],
        written = None,
        logged = [Warning ''Could not fetch elevation for E=2600000.00, N=1200000.00: request failed''],
        requested = [(2600000, 1200000)]\<rparr>
   \<and> exit_status (main decimal_float no_height origin_transform flat_geod writable ''route.gpx''
        doc_no_ele None True) = 0
   \<and> kroki_parse_gpx decimal_float doc_no_ele = Inr [(93 / 2, 15 / 2, None)]
   \<and> list_all in_range [(93 / 2, 15 / 2, None)]
   \<and> snd (generate_kroki decimal_float unreachable writable doc_no_ele None True) = None
   \<and> fst (kroki_main decimal_float unreachable writable ''route.gpx'' doc_no_ele None True) = 0
   \<and> (\<exists>sp ts. length sp = 1
         \<and> k_stdout (fst (generate_kroki decimal_float unreachable writable doc_no_ele None True))
             = [kroki_report sp ts])
   \<and> (\<exists>e n. k_stderr (fst (generate_kroki decimal_float unreachable writable doc_no_ele None True))
               = [''Fetching elevation data from swisstopo API...'',
                  ''Warning: Could not fetch elevation for E='' @ fmt2 e @ '', N='' @ fmt2 n
                    @ '': request failed'', []]
            \<and> k_requests (fst (generate_kroki decimal_float unreachable writable doc_no_ele
                                 None True)) = [(e, n)])"
proof -
  let ?run = "generate_kroki decimal_float unreachable writable doc_no_ele None True"
  note u = lookup_failure_recoverable [where pf = decimal_float and http = unreachable
      and e = 2600000 and n = 1200000 and exc = RequestError and x = RequestError
      and tr = origin_transform and ginv = flat_geod and fs = writable
      and gpx_file = "''route.gpx''" and doc = doc_no_ele and output_file = None
      and use = True and fetch = True and http' = no_height
      and pts = "[(93 / 2, 15 / 2, None)]" and kpts = "[(93 / 2, 15 / 2, None)]"
      and r = "fst ?run" and st = 0 and b = None and kvs = "[]"]
  note s = lookup_failure_recoverable [where pf = decimal_float and http = server_error
      and e = 2600000 and n = 1200000 and exc = "HTTPError 500" and st = 500 and b = None and x = RequestError and kvs = "[]"]
  note j = lookup_failure_recoverable [where pf = decimal_float and http = not_json
      and e = 2600000 and n = 1200000 and exc = JSONDecodeError and st = 200 and b = None and x = RequestError and kvs = "[]"]
  note h = lookup_failure_recoverable [where pf = decimal_float and http = no_height
      and e = 2600000 and n = 1200000 and st = 200 and kvs = "[]" and b = None
      and x = RequestError and exc = RequestError]
  note u_status = u [THEN conjunct2, THEN conjunct2, THEN conjunct2, THEN conjunct2, THEN conjunct2, THEN conjunct2, THEN conjunct2, THEN conjunct2, THEN conjunct2, THEN conjunct2, THEN conjunct1]
  note u_profile = u [THEN conjunct2, THEN conjunct2, THEN conjunct2, THEN conjunct2, THEN conjunct2, THEN conjunct2, THEN conjunct2, THEN conjunct2, THEN conjunct2, THEN conjunct2, THEN conjunct2, THEN conjunct2, THEN conjunct1]
  note u_report = u [THEN conjunct2, THEN conjunct2, THEN conjunct2, THEN conjunct2, THEN conjunct2, THEN conjunct2, THEN conjunct2, THEN conjunct2, THEN conjunct2, THEN conjunct2, THEN conjunct2, THEN conjunct2, THEN conjunct2, THEN conjunct1]
  note u_ends = u [THEN conjunct2, THEN conjunct2, THEN conjunct2, THEN conjunct2, THEN conjunct2, THEN conjunct2, THEN conjunct2, THEN conjunct2, THEN conjunct2, THEN conjunct2, THEN conjunct2, THEN conjunct2, THEN conjunct2, THEN conjunct2]
  have w1: "fetch_elevation decimal_float unreachable None 2600000 1200000 True
     = (0, [Warning ''Could not fetch elevation for E=2600000.00, N=1200000.00: request failed''],
        [(2600000, 1200000)])"
    using u [THEN conjunct1] u [THEN conjunct2, THEN conjunct1]
    by (simp add: unreachable_def fmt2_eval str_error_def)
  have w2: "fetch_elevation decimal_float server_error None 2600000 1200000 True
     = (0, [Warning ''Could not fetch elevation for E=2600000.00, N=1200000.00: HTTP Error 500''],
        [(2600000, 1200000)])"
    using s [THEN conjunct1] s [THEN conjunct2, THEN conjunct2, THEN conjunct1]
    by (simp add: server_error_def fmt2_eval str_error_def str_nat_eval)
  have w3: "fetch_elevation_swisstopo decimal_float not_json 2600000 1200000
     = (None, [''Warning: Could not fetch elevation for E=2600000.00, N=1200000.00: JSONDecodeError''],
        [(2600000, 1200000)])"
    using j [THEN conjunct2, THEN conjunct2, THEN conjunct2, THEN conjunct2, THEN conjunct2, THEN conjunct1] j [THEN conjunct2, THEN conjunct2, THEN conjunct2, THEN conjunct2, THEN conjunct2, THEN conjunct2, THEN conjunct2, THEN conjunct2, THEN conjunct1]
    by (simp add: not_json_def fmt2_eval str_error_def)
  have w4: "fetch_elevation_swisstopo decimal_float no_height 2600000 1200000
     = (None, [], [(2600000, 1200000)])"
    using h [THEN conjunct2, THEN conjunct2, THEN conjunct2, THEN conjunct2, THEN conjunct2, THEN conjunct2, THEN conjunct2, THEN conjunct2, THEN conjunct2, THEN conjunct1] by (simp add: no_height_def)
  have r: "resolve decimal_float unreachable origin_transform True (93 / 2, 15 / 2, None)
      = (0, [Warning ''Could not fetch elevation for E=2600000.00, N=1200000.00: request failed''],
         [(2600000, 1200000)])"
    by (simp add: resolve_def origin_transform_def w1)
  have b: "build_profile decimal_float unreachable origin_transform flat_geod
        [(93 / 2, 15 / 2, None)] True
      = Inr ([\<lparr>p_e = 2600000, p_n = 1200000, p_ele = Some 0, p_dist = 0, p_azimuth = 0,
               p_delta_ele = 0\<rparr>],
             [Warning ''Could not fetch elevation for E=2600000.00, N=1200000.00: request failed''],
             [(2600000, 1200000)])"
    by (simp add: build_profile_spec expected_entry_def Let_def r origin_transform_def)
  have lv: "parse_gpx decimal_float doc_no_ele = Inr [(93 / 2, 15 / 2, None)]
      \<and> [(93 / 2, 15 / 2, None :: pyfloat option)] \<noteq> []"
    by (simp add: parse_doc_no_ele)
  have w5: "main decimal_float unreachable origin_transform flat_geod writable ''route.gpx''
        doc_no_ele None True
     = \<lparr>exit_status = 0,
        printed = [format_profile [\<lparr>p_e = 2600000, p_n = 1200000, p_ele = Some 0, p_dist = 0,
                                    p_azimuth = 0, p_delta_ele = 0\<rparr>]],
        written = None,
        logged = [Warning ''Could not fetch elevation for E=2600000.00, N=1200000.00: request failed''],
        requested = [(2600000, 1200000)]\<rparr>"
    using u_profile lv b by auto
  have w6: "exit_status (main decimal_float no_height origin_transform flat_geod writable
        ''route.gpx'' doc_no_ele None True) = 0"
    using u_status w5 by simp
  have kp: "kroki_parse_gpx decimal_float doc_no_ele = Inr [(93 / 2, 15 / 2, None)]"
    by (rule parse_doc_no_ele(2))
  have ir: "list_all in_range [(93 / 2, 15 / 2, None)]"
    by (simp add: in_range_def)
  have w7: "snd ?run = None"
    and w8: "fst (kroki_main decimal_float unreachable writable ''route.gpx'' doc_no_ele
               None True) = 0"
    using u_ends kp ir by simp_all
  have run: "?run = (fst ?run, None)"
    using w7 by (simp add: prod_eq_iff)
  have w9: "\<exists>sp ts. length sp = 1 \<and> k_stdout (fst ?run) = [kroki_report sp ts]"
    using u_report kp run by simp
  obtain e n where en: "wgs84_to_lv95 (93 / 2) (15 / 2) = Inr (e, n)"
    using wgs84_to_lv95_in_range [of "93 / 2" "15 / 2"] by auto
  have f: "fetch_elevation_swisstopo decimal_float unreachable e n
      = (None, [''Warning: Could not fetch elevation for E='' @ fmt2 e @ '', N='' @ fmt2 n
                @ '': request failed''], [(e, n)])"
    using fetch_elevation_swisstopo_warns [of decimal_float unreachable e n RequestError]
      read_height_failures(1) [of unreachable e n RequestError decimal_float]
    by (simp add: unreachable_def str_error_def)
  have loop: "swiss_loop decimal_float unreachable True (enumerate_from 0 [(93 / 2, 15 / 2, None)])
        ([], [''Fetching elevation data from swisstopo API...''], [])
      = (([(e, n, None)],
          [''Fetching elevation data from swisstopo API...'',
           ''Warning: Could not fetch elevation for E='' @ fmt2 e @ '', N='' @ fmt2 n
             @ '': request failed''],
          [(e, n)]), None)"
    by (simp add: enumerate_from_Cons enumerate_from_Nil en f)
  obtain ds where ds: "distances [(e, n, None :: pyfloat option)] = Inr ds"
    by (simp add: distances_def)
  have w10: "k_stderr (fst ?run)
        = [''Fetching elevation data from swisstopo API...'',
           ''Warning: Could not fetch elevation for E='' @ fmt2 e @ '', N='' @ fmt2 n
             @ '': request failed'', []]
      \<and> k_requests (fst ?run) = [(e, n)]"
    using kp loop ds
    by (simp add: generate_kroki_def Let_def output_lines_of_spec)
  show ?thesis
    using w1 w2 w3 w4 w5 w6 kp ir w7 w8 w9 w10 by blast
qed

section \<open>Totals\<close>

lemma round64_tenth: "round64 (1 / 10) = f01"
proof -
  have "round64 (1 / 10) = of_int (rne ((1 / 10) * 2 ^ 56)) / 2 ^ 56"
    by (rule round64_binade) simp_all
  also have "rne ((1 / 10) * 2 ^ 56) = 7205759403792794"
    by (simp add: rne_def Let_def)
  finally show ?thesis by (simp add: f01_def)
qed

lemma round64_fifth: "round64 (2 / 10) = f02"
proof -
  have "round64 (2 / 10) = of_int (rne ((2 / 10) * 2 ^ 55)) / 2 ^ 55"
    by (rule round64_binade) simp_all
  also have "rne ((2 / 10) * 2 ^ 55) = 7205759403792794"
    by (simp add: rne_def Let_def)
  finally show ?thesis by (simp add: f02_def)
qed

lemma round64_half: "round64 (5 / 10) = 1 / 2"
  using round64_grid [where x = "1 / 2" and k = 1 and m = 1] by simp

lemma round64_f04: "round64 f04 = f04"
  by (rule round64_grid [where k = 54 and m = 7205759403792794]) (simp_all add: f04_def)

lemma round64_f03: "round64 f03 = f03"
  by (rule round64_grid [where k = 54 and m = 5404319552844595]) (simp_all add: f03_def)

lemma fsub_half_f01: "fsub (1 / 2) f01 = f04"
proof -
  have "round64 (1 / 2 - f01) = of_int (rne ((1 / 2 - f01) * 2 ^ 54)) / 2 ^ 54"
    by (rule round64_binade) (simp_all add: f01_def)
  also have "rne ((1 / 2 - f01) * 2 ^ 54) = 7205759403792794"
    by (simp add: rne_def Let_def f01_def)
  finally show ?thesis by (simp add: fsub_def f04_def)
qed

lemma fsub_half_f02: "fsub (1 / 2) f02 = f03"
proof -
  have "round64 (1 / 2 - f02) = 1 / 2 - f02"
    by (rule round64_grid [where k = 54 and m = 5404319552844595]) (simp_all add: f02_def)
  then show ?thesis by (simp add: fsub_def f02_def f03_def)
qed

lemma fsub_swap: "fsub a b = - fsub b a"
  using round64_minus [of "b - a"] by (simp add: fsub_def)

lemma upt_1_3: "[1..<3] = [1, 2]"
  by (simp add: upt_rec)

lemma total_ascent_ex: "total_ascent [f01, 1 / 2, f02] = f04"
proof -
  have n: "fsub f02 (1 / 2) = - f03"
    using fsub_swap [of f02 "1 / 2"] by (simp add: fsub_half_f02)
  have p4: "0 < f04" and p3: "0 < f03" by (simp_all add: f04_def f03_def)
  show ?thesis
    using p4 p3
    by (simp add: total_ascent_def upt_1_3 fsub_half_f01 n py_max_def py_sum_def fadd_def
        round64_f04)
qed

lemma total_descent_ex: "total_descent [f01, 1 / 2, f02] = f03"
proof -
  have n: "fsub f01 (1 / 2) = - f04"
    using fsub_swap [of f01 "1 / 2"] by (simp add: fsub_half_f01)
  have p4: "0 < f04" and p3: "0 < f03" by (simp_all add: f04_def f03_def)
  have z: "round64 0 = 0" by (simp add: round64_def)
  show ?thesis
    using p4 p3
    by (simp add: total_descent_def upt_1_3 fsub_half_f02 n py_max_def py_sum_def fadd_def
        round64_f03 z)
qed

lemma decimal_float_0_1: "decimal_float ''0.1'' = Some f01"
  using round64_tenth
  by (simp add: decimal_float_def unsigned_decimal_def is_digit_def nat_of_digits_def
        digit_val_def Let_def)

lemma decimal_float_0_2: "decimal_float ''0.2'' = Some f02"
  using round64_fifth
  by (simp add: decimal_float_def unsigned_decimal_def is_digit_def nat_of_digits_def
        digit_val_def Let_def)

lemma decimal_float_0_5: "decimal_float ''0.5'' = Some (1 / 2)"
  using round64_half
  by (simp add: decimal_float_def unsigned_decimal_def is_digit_def nat_of_digits_def
        digit_val_def Let_def)

lemma round64_grid_Ints:
  fixes x :: real
  assumes "x * 2 ^ k \<in> \<int>" and "\<bar>x\<bar> * 2 ^ k < 2 ^ 53" and "k \<le> 1074"
  shows "round64 x = x"
proof -
  obtain m :: int where m: "x * 2 ^ k = of_int m"
    using assms(1) by (auto elim: Ints_cases)
  have "\<bar>x\<bar> * 2 ^ k = \<bar>x * 2 ^ k\<bar>" by (simp add: abs_mult)
  then have "real_of_int \<bar>m\<bar> < 2 ^ 53" using assms(2) m by simp
  then have lt: "\<bar>m\<bar> < 2 ^ 53"
    by (metis of_int_less_iff of_int_numeral of_int_power)
  show ?thesis by (rule round64_grid [OF m lt assms(3)])
qed

lemma foldl_fadd_exact:
  fixes acc :: real
  assumes "k \<le> 1074" and "acc * 2 ^ k \<in> \<int>" and "0 \<le> acc"
    and "\<forall>x \<in> set xs. x * 2 ^ k \<in> \<int> \<and> 0 \<le> x"
    and "(acc + sum_list xs) * 2 ^ k < 2 ^ 53"
  shows "foldl fadd acc xs = acc + sum_list xs"
  using assms(2-)
proof (induction xs arbitrary: acc)
  case Nil
  then show ?case by simp
next
  case (Cons x xs)
  have x: "x * 2 ^ k \<in> \<int>" "0 \<le> x" using Cons.prems(3) by simp_all
  have s: "0 \<le> sum_list xs"
    using Cons.prems(3) by (simp add: sum_list_nonneg)
  have g: "(acc + x) * 2 ^ k \<in> \<int>"
    using Cons.prems(1) x(1) by (simp add: distrib_right)
  have "\<bar>acc + x\<bar> * 2 ^ k \<le> (acc + sum_list (x # xs)) * 2 ^ k"
    using Cons.prems(2) x(2) s by (simp add: mult_right_mono)
  then have b: "\<bar>acc + x\<bar> * 2 ^ k < 2 ^ 53"
    using Cons.prems(4) by linarith
  have st: "fadd acc x = acc + x"
    unfolding fadd_def using g b assms(1) by (rule round64_grid_Ints)
  have "foldl fadd (acc + x) xs = (acc + x) + sum_list xs"
    using Cons.prems x g by (intro Cons.IH) (simp_all add: add.assoc)
  then show ?case by (simp add: st)
qed

lemma py_sum_exact:
  assumes "k \<le> 1074" and "\<forall>x \<in> set xs. x * 2 ^ k \<in> \<int> \<and> 0 \<le> x"
    and "sum_list xs * 2 ^ k < 2 ^ 53"
  shows "py_sum xs = sum_list xs"
  using foldl_fadd_exact [of k 0 xs] assms by (simp add: py_sum_def)

lemma member_le_sum_list_real:
  fixes xs :: "real list"
  shows "\<forall>x \<in> set xs. 0 \<le> x \<Longrightarrow> y \<in> set xs \<Longrightarrow> y \<le> sum_list xs"
proof (induction xs)
  case Nil
  then show ?case by simp
next
  case (Cons a xs)
  have "0 \<le> sum_list xs" using Cons.prems(1) by (simp add: sum_list_nonneg)
  then show ?case using Cons by auto
qed

lemma sum_of_differences:
  fixes h :: "real list"
  shows "1 \<le> n \<Longrightarrow> sum_list (map (\<lambda>i. h ! i - h ! (i - 1)) [1..<n]) = h ! (n - 1) - h ! 0"
proof (induction n)
  case 0
  then show ?case by simp
next
  case (Suc n)
  show ?case
  proof (cases "n = 0")
    case True
    then show ?thesis by simp
  next
    case False
    then have "1 \<le> n" by simp
    then show ?thesis using Suc.IH by simp
  qed
qed

lemma positive_minus_negative_part:
  fixes d :: "nat \<Rightarrow> real"
  shows "sum_list (map (\<lambda>i. max 0 (d i)) xs) - sum_list (map (\<lambda>i. max 0 (- d i)) xs)
     = sum_list (map d xs)"
  by (induction xs) (auto simp: max_def)

lemma py_max_zero: "py_max 0 x = max 0 x"
  by (simp add: py_max_def max_def)

lemma totals_exact:
  fixes h :: "real list"
  assumes k: "k \<le> 1074"
    and grid: "\<forall>x \<in> set h. x * 2 ^ k \<in> \<int>"
    and var: "sum_list (map (\<lambda>i. \<bar>h ! i - h ! (i - 1)\<bar>) [1..<length h]) * 2 ^ k < 2 ^ 53"
  shows "total_ascent h = sum_list (map (\<lambda>i. max 0 (h ! i - h ! (i - 1))) [1..<length h])"
    and "total_descent h = sum_list (map (\<lambda>i. max 0 (- (h ! i - h ! (i - 1)))) [1..<length h])"
proof -
  let ?I = "[1..<length h]"
  let ?d = "\<lambda>i. h ! i - h ! (i - 1)"
  let ?V = "sum_list (map (\<lambda>i. \<bar>?d i\<bar>) ?I)"
  have dg: "?d i * 2 ^ k \<in> \<int>" if "i \<in> set ?I" for i
  proof -
    have "i < length h" "i - 1 < length h" using that by auto
    then have "h ! i \<in> set h" "h ! (i - 1) \<in> set h" by (simp_all only: nth_mem)
    then have "h ! i * 2 ^ k \<in> \<int>" "h ! (i - 1) * 2 ^ k \<in> \<int>" using grid by blast+
    then show ?thesis by (simp add: left_diff_distrib)
  qed
  have dV: "\<bar>?d i\<bar> \<le> ?V" if "i \<in> set ?I" for i
    by (rule member_le_sum_list_real) (use that in auto)
  have V0: "0 \<le> ?V" by (rule sum_list_nonneg) auto
  have db: "\<bar>?d i\<bar> * 2 ^ k < 2 ^ 53" if "i \<in> set ?I" for i
  proof -
    have "\<bar>?d i\<bar> * 2 ^ k \<le> ?V * 2 ^ k"
      using dV [OF that] by (simp add: mult_right_mono)
    then show ?thesis using var by linarith
  qed
  have sub: "fsub (h ! i) (h ! (i - 1)) = ?d i" if "i \<in> set ?I" for i
    unfolding fsub_def using dg [OF that] db [OF that] k by (rule round64_grid_Ints)
  have sub': "fsub (h ! (i - 1)) (h ! i) = - ?d i" if "i \<in> set ?I" for i
    using sub [OF that] fsub_swap [of "h ! (i - 1)" "h ! i"] by simp
  have sub1: "fsub (h ! i) (h ! (i - Suc 0)) = h ! i - h ! (i - Suc 0)"
    if "Suc 0 \<le> i" "i < length h" for i
    using sub [of i] that by simp
  have sub1': "fsub (h ! (i - Suc 0)) (h ! i) = h ! (i - Suc 0) - h ! i"
    if "Suc 0 \<le> i" "i < length h" for i
    using sub' [of i] that by simp
  have dgn: "(h ! (i - Suc 0) - h ! i) * 2 ^ k \<in> \<int>"
    if "Suc 0 \<le> i" "i < length h" for i
  proof -
    have "(h ! (i - Suc 0) - h ! i) * 2 ^ k = - ((h ! i - h ! (i - 1)) * 2 ^ k)"
      by (simp add: algebra_simps)
    moreover have "(h ! i - h ! (i - 1)) * 2 ^ k \<in> \<int>"
      using dg [of i] that by simp
    ultimately show ?thesis by (simp only: Ints_minus)
  qed
  have up: "sum_list (map (\<lambda>i. max 0 (?d i)) ?I) \<le> ?V"
    by (rule sum_list_mono) auto
  have dn: "sum_list (map (\<lambda>i. max 0 (- ?d i)) ?I) \<le> ?V"
    by (rule sum_list_mono) auto
  have "total_ascent h = py_sum (map (\<lambda>i. max 0 (?d i)) ?I)"
    unfolding total_ascent_def
    by (rule arg_cong [where f = py_sum], rule map_cong) (simp_all add: py_max_zero sub1)
  also have "\<dots> = sum_list (map (\<lambda>i. max 0 (?d i)) ?I)"
  proof (rule py_sum_exact [OF k])
    show "\<forall>x \<in> set (map (\<lambda>i. max 0 (?d i)) ?I). x * 2 ^ k \<in> \<int> \<and> 0 \<le> x"
      using dg by (auto simp: max_def)
    have "sum_list (map (\<lambda>i. max 0 (?d i)) ?I) * 2 ^ k \<le> ?V * 2 ^ k"
      using up by (simp add: mult_right_mono)
    then show "sum_list (map (\<lambda>i. max 0 (?d i)) ?I) * 2 ^ k < 2 ^ 53"
      using var by linarith
  qed
  finally show "total_ascent h = sum_list (map (\<lambda>i. max 0 (?d i)) ?I)" .
  have "total_descent h = py_sum (map (\<lambda>i. max 0 (- ?d i)) ?I)"
    unfolding total_descent_def
    by (rule arg_cong [where f = py_sum], rule map_cong) (simp_all add: py_max_zero sub1')
  also have "\<dots> = sum_list (map (\<lambda>i. max 0 (- ?d i)) ?I)"
  proof (rule py_sum_exact [OF k])
    show "\<forall>x \<in> set (map (\<lambda>i. max 0 (- ?d i)) ?I). x * 2 ^ k \<in> \<int> \<and> 0 \<le> x"
      using dgn by (auto simp: max_def)
    have "sum_list (map (\<lambda>i. max 0 (- ?d i)) ?I) * 2 ^ k \<le> ?V * 2 ^ k"
      using dn by (simp add: mult_right_mono)
    then show "sum_list (map (\<lambda>i. max 0 (- ?d i)) ?I) * 2 ^ k < 2 ^ 53"
      using var by linarith
  qed
  finally show "total_descent h = sum_list (map (\<lambda>i. max 0 (- ?d i)) ?I)" .
qed

lemma totals_telescope:
  fixes h :: "real list"
  assumes "h \<noteq> []" and "k \<le> 1074" and "\<forall>x \<in> set h. x * 2 ^ k \<in> \<int>"
    and "sum_list (map (\<lambda>i. \<bar>h ! i - h ! (i - 1)\<bar>) [1..<length h]) * 2 ^ k < 2 ^ 53"
  shows "total_ascent h - total_descent h = last h - hd h"
proof -
  have n: "1 \<le> length h" using assms(1) by (cases h) auto
  have "total_ascent h - total_descent h
      = sum_list (map (\<lambda>i. h ! i - h ! (i - 1)) [1..<length h])"
    using totals_exact [OF assms(2-4)]
      positive_minus_negative_part [of "\<lambda>i. h ! i - h ! (i - 1)" "[1..<length h]"]
    by simp
  also have "\<dots> = h ! (length h - 1) - h ! 0"
    using n by (rule sum_of_differences)
  finally show ?thesis
    using assms(1) by (simp add: last_conv_nth hd_conv_nth)
qed

lemma lv95_totals:
  assumes "build_profile pf http tr ginv points use = Inr (profile, logs, sent)"
  defines "h \<equiv> map (\<lambda>p. fst (resolve pf http tr use p)) points"
  shows "map p_ele profile = map Some h" and "ascent profile = total_ascent h"
    and "descent profile = total_descent h"
proof -
  let ?E = "expected_entry pf http tr ginv use points"
  let ?n = "length points"
  have prof: "profile = map ?E [0..<?n]"
    using assms(1) by (simp add: build_profile_spec)
  have hi: "h ! i = fst (resolve pf http tr use (points ! i))" if "i < ?n" for i
    using that by (simp add: h_def)
  show "map p_ele profile = map Some h"
    by (rule nth_equalityI) (simp_all add: prof h_def expected_entry_def Let_def)
  have tl: "drop 1 profile = map ?E [1..<?n]"
    by (simp add: prof drop_map)
  have de: "p_delta_ele (?E i) = fsub (h ! i) (h ! (i - Suc 0))"
    if "Suc 0 \<le> i" "i < ?n" for i
    using that by (simp add: expected_entry_def Let_def hi)
  have len: "length h = ?n" by (simp add: h_def)
  show "ascent profile = total_ascent h"
    unfolding ascent_def total_ascent_def tl len map_map
    by (rule arg_cong [where f = py_sum], rule map_cong) (simp_all add: de)
  have "- fsub (h ! i) (h ! (i - Suc 0)) = fsub (h ! (i - Suc 0)) (h ! i)" for i
    using fsub_swap [of "h ! (i - Suc 0)" "h ! i"] by simp
  then show "descent profile = total_descent h"
    unfolding descent_def total_descent_def tl len map_map
    by (intro arg_cong [where f = py_sum] map_cong) (simp_all add: de)
qed

text \<open>
  C9, as stated, fails: for the elevations 0.1, 0.5 and 0.2 (all present in the input) the
  total ascent is the float 0.4 and the total descent the float 0.3, and their difference
  is not the difference of the last and the first elevation, neither as real numbers nor
  after the rounding of a float subtraction. The same holds for the totals that
  \<^verbatim>\<open>format_profile\<close> computes from the profile of these elevations.
\<close>

theorem rounding_breaks_telescoping:
  "decimal_float ''0.1'' = Some f01 \<and> decimal_float ''0.5'' = Some (1 / 2)
   \<and> decimal_float ''0.2'' = Some f02
   \<and> total_ascent [f01, 1 / 2, f02] = f04 \<and> total_descent [f01, 1 / 2, f02] = f03
   \<and> total_ascent [f01, 1 / 2, f02] - total_descent [f01, 1 / 2, f02] \<noteq> f02 - f01
   \<and> fsub (total_ascent [f01, 1 / 2, f02]) (total_descent [f01, 1 / 2, f02]) \<noteq> fsub f02 f01
   \<and> (\<exists>profile logs sent. build_profile decimal_float unreachable origin_transform flat_geod
          [(93 / 2, 15 / 2, Some f01), (93 / 2, 15 / 2, Some (1 / 2)), (93 / 2, 15 / 2, Some f02)]
          False = Inr (profile, logs, sent)
        \<and> ascent profile - descent profile \<noteq> f02 - f01)"
proof -
  have a: "fsub f04 f03 = f04 - f03"
    unfolding fsub_def
    by (rule round64_grid [where k = 54 and m = 1801439850948199]) (simp_all add: f04_def f03_def)
  have b: "fsub f02 f01 = f02 - f01"
    unfolding fsub_def
    by (rule round64_grid [where k = 55 and m = 3602879701896397]) (simp_all add: f02_def f01_def)
  have ne: "f04 - f03 \<noteq> f02 - f01"
    by (simp add: f01_def f02_def f03_def f04_def)
  let ?points = "[(93 / 2, 15 / 2, Some f01), (93 / 2, 15 / 2, Some (1 / 2)),
      (93 / 2, 15 / 2, Some f02)] :: raw_point list"
  let ?E = "expected_entry decimal_float unreachable origin_transform flat_geod False ?points"
  let ?logs = "concat (map (\<lambda>p. fst (snd (resolve decimal_float unreachable origin_transform
      False p))) ?points)"
  let ?sent = "concat (map (\<lambda>p. snd (snd (resolve decimal_float unreachable origin_transform
      False p))) ?points)"
  let ?profile = "map ?E [0..<length ?points]"
  have bp: "build_profile decimal_float unreachable origin_transform flat_geod ?points False
      = Inr (?profile, ?logs, ?sent)"
    by (rule build_profile_spec)
  have h: "map (\<lambda>p. fst (resolve decimal_float unreachable origin_transform False p)) ?points
      = [f01, 1 / 2, f02]"
    by (simp add: resolve_def fetch_elevation_def split: prod.splits)
  have "ascent ?profile = f04" "descent ?profile = f03"
    using lv95_totals(2,3) [OF bp] by (simp_all only: h total_ascent_ex total_descent_ex)
  then have "ascent ?profile - descent ?profile \<noteq> f02 - f01"
    using ne by simp
  then have "\<exists>profile logs sent. build_profile decimal_float unreachable origin_transform flat_geod
      ?points False = Inr (profile, logs, sent) \<and> ascent profile - descent profile \<noteq> f02 - f01"
    using bp by blast
  then show ?thesis
    using ne
    by (simp add: total_ascent_ex total_descent_ex a b decimal_float_0_1 decimal_float_0_2
        decimal_float_0_5)
qed

text \<open>
  C9, amended. For every route in which every elevation is resolved, the resolved
  elevations \<open>h\<close> are multiples of \<open>1 / 2^k\<close> (whole metres for \<open>k = 0\<close>) and the sum of the
  absolute elevation changes is below \<open>2^53 / 2^k\<close>, no operation rounds, and the total
  ascent minus the total descent is the last elevation minus the first: for the totals of
  gpx2kroki over \<open>h\<close>, and for the totals of \<^verbatim>\<open>format_profile\<close> over a profile of
  \<^verbatim>\<open>build_profile\<close> with these elevations.
\<close>

theorem telescoping_when_exact:
  fixes h :: "pyfloat list"
  assumes "h \<noteq> []" and "k \<le> 1074" and "\<forall>x \<in> set h. x * 2 ^ k \<in> \<int>"
    and "sum_list (map (\<lambda>i. \<bar>h ! i - h ! (i - 1)\<bar>) [1..<length h]) * 2 ^ k < 2 ^ 53"
  shows "total_ascent h - total_descent h = last h - hd h
       \<and> (build_profile pf http tr ginv points use = Inr (profile, logs, sent)
            \<and> map p_ele profile = map Some h
          \<longrightarrow> ascent profile - descent profile = last h - hd h)"
proof (intro conjI impI)
  show t: "total_ascent h - total_descent h = last h - hd h"
    using assms by (rule totals_telescope)
  assume a: "build_profile pf http tr ginv points use = Inr (profile, logs, sent)
      \<and> map p_ele profile = map Some h"
  then have "map Some h = map Some (map (\<lambda>p. fst (resolve pf http tr use p)) points)"
    using lv95_totals(1) [of pf http tr ginv points use profile logs sent] by simp
  then have "h = map (\<lambda>p. fst (resolve pf http tr use p)) points"
    by (simp only: inj_map_eq_map [OF inj_Some])
  then show "ascent profile - descent profile = last h - hd h"
    using t a lv95_totals(2,3) [of pf http tr ginv points use profile logs sent] by simp
qed

theorem telescoping_when_exact_witness:
  "total_ascent [500, 1000, 750] - total_descent [500, 1000, 750] = 250
   \<and> (\<exists>profile logs sent. build_profile decimal_float unreachable origin_transform flat_geod
          [(93 / 2, 15 / 2, Some 500), (93 / 2, 15 / 2, Some 1000), (93 / 2, 15 / 2, Some 750)]
          False = Inr (profile, logs, sent)
        \<and> ascent profile - descent profile = 250)"
proof -
  let ?h = "[500, 1000, 750] :: pyfloat list"
  let ?points = "[(93 / 2, 15 / 2, Some 500), (93 / 2, 15 / 2, Some 1000),
      (93 / 2, 15 / 2, Some 750)] :: raw_point list"
  let ?E = "expected_entry decimal_float unreachable origin_transform flat_geod False ?points"
  let ?logs = "concat (map (\<lambda>p. fst (snd (resolve decimal_float unreachable origin_transform
      False p))) ?points)"
  let ?sent = "concat (map (\<lambda>p. snd (snd (resolve decimal_float unreachable origin_transform
      False p))) ?points)"
  have b: "build_profile decimal_float unreachable origin_transform flat_geod ?points False
      = Inr (map ?E [0..<length ?points], ?logs, ?sent)"
    by (rule build_profile_spec)
  have e: "map p_ele (map ?E [0..<length ?points]) = map Some ?h"
    by (simp add: expected_entry_def Let_def resolve_def fetch_elevation_def upt_rec
        split: prod.splits)
  have h1: "?h \<noteq> []" by simp
  have h2: "(0::nat) \<le> 1074" by simp
  have h3: "\<forall>x \<in> set ?h. x * 2 ^ 0 \<in> \<int>" by simp
  have h4: "sum_list (map (\<lambda>i. \<bar>?h ! i - ?h ! (i - 1)\<bar>) [1..<length ?h]) * 2 ^ 0 < 2 ^ 53"
    by (simp add: upt_rec)
  show ?thesis
    using telescoping_when_exact [OF h1 h2 h3 h4, of decimal_float unreachable origin_transform
        flat_geod ?points False "map ?E [0..<length ?points]" ?logs ?sent] b e
    by simp
qed

end
